theory Spec2Isabelle
  imports Complex_Main
begin

section \<open>Tensors, files and errors\<close>

text \<open>
  The script \<^verbatim>\<open>UNET_script.py\<close> is one function, \<^verbatim>\<open>generate_output\<close>, that wires
  library objects together. The embedding follows its text line by line. Library objects
  are written as data (a transform is a value of \<open>transform\<close> carrying the arguments the
  script passes) with the behaviour their documentation gives; what the script cannot
  know (the trained network function, the two ignite metrics) is a parameter.

  A tensor is its shape and its elements by multi-index. Floating point numbers are
  read as real numbers throughout.
\<close>

record 'a tensor =
  shape :: "nat list"
  elem :: "nat list \<Rightarrow> 'a"

definition valid_index :: "nat list \<Rightarrow> nat list \<Rightarrow> bool" where
  "valid_index sh idx = list_all2 (<) idx sh"

fun indices :: "nat list \<Rightarrow> nat list list" where
  "indices [] = [[]]"
| "indices (n # ns) = concat (map (\<lambda>i. map ((#) i) (indices ns)) [0..<n])"

definition tmap :: "('a \<Rightarrow> 'b) \<Rightarrow> 'a tensor \<Rightarrow> 'b tensor" where
  "tmap f t = \<lparr>shape = shape t, elem = (\<lambda>idx. f (elem t idx))\<rparr>"

datatype error =
  FileNotFoundError | ValueError | IndexError | RuntimeError | TypeError | KeyError

text \<open>
  A NIfTI volume on disk: its three voxel dimensions, its voxels, and the axis codes of
  its voxel axes (what nibabel reads off the header's affine, for instance \<open>''LPS''\<close>).
\<close>

record nifti =
  dims :: "nat \<times> nat \<times> nat"
  voxel :: "nat list \<Rightarrow> real"
  affine_codes :: string

record 'a meta_tensor =
  array :: "'a tensor"
  axcodes_of :: string

text \<open>\<^verbatim>\<open>os.path.join\<close> on POSIX paths, two components at a time.\<close>

definition path_join :: "string \<Rightarrow> string \<Rightarrow> string" where
  "path_join a b =
     (if b \<noteq> [] \<and> hd b = CHR ''/'' then b
      else if a = [] \<or> last a = CHR ''/'' then a @ b
      else a @ ''/'' @ b)"

section \<open>The preprocessing transforms\<close>

text \<open>
  The transforms the script constructs, with the arguments it passes. A random transform
  draws from a random state, here a sequence of raw draws.
\<close>

datatype transform =
    LoadImage (image_only: bool) (ensure_channel_first: bool)
  | ScaleIntensityRange (a_min: real) (a_max: real) (b_min: real) (b_max: real) (clip: bool)
  | Orientation (axcodes: string)
  | RandSpatialCrop (roi_size: "nat list") (random_center: bool)

datatype data = Filename string | Img "real meta_tensor"

type_synonym rng = "nat \<Rightarrow> nat"

definition randint :: "rng \<Rightarrow> nat \<Rightarrow> nat \<Rightarrow> nat \<times> rng" where
  "randint r lo hi = (lo + r 0 mod (hi - lo), (\<lambda>n. r (Suc n)))"

subsection \<open>LoadImage\<close>

text \<open>
  \<^verbatim>\<open>LoadImage(image_only=True, ensure_channel_first=True)\<close> reads a volume and puts a
  channel axis of length one in front. A missing file raises.
\<close>

definition load_image :: "(string \<rightharpoonup> nifti) \<Rightarrow> string \<Rightarrow> error + real meta_tensor" where
  "load_image fs p =
     (case fs p of
        None \<Rightarrow> Inl FileNotFoundError
      | Some v \<Rightarrow>
          (case dims v of (nx, ny, nz) \<Rightarrow>
             Inr \<lparr>array = \<lparr>shape = [1, nx, ny, nz], elem = (\<lambda>idx. voxel v (tl idx))\<rparr>,
                  axcodes_of = affine_codes v\<rparr>))"

subsection \<open>ScaleIntensityRange\<close>

text \<open>
  On one intensity: \<^verbatim>\<open>img = (img - a_min) / (a_max - a_min)\<close>, then
  \<^verbatim>\<open>img = img * (b_max - b_min) + b_min\<close>, then the clip to \<open>[b_min, b_max]\<close> when
  \<^verbatim>\<open>clip\<close> is set. With \<open>a_max = a_min\<close> the library only shifts.
\<close>

definition clip_value :: "real \<Rightarrow> real \<Rightarrow> real \<Rightarrow> real" where
  "clip_value x lo hi = min (max x lo) hi"

definition scale_intensity :: "real \<Rightarrow> real \<Rightarrow> real \<Rightarrow> real \<Rightarrow> bool \<Rightarrow> real \<Rightarrow> real" where
  "scale_intensity amin amax bmin bmax cl v =
     (if amax - amin = 0 then v - amin + bmin
      else
        let s = (v - amin) / (amax - amin);
            s' = s * (bmax - bmin) + bmin
        in if cl then clip_value s' bmin bmax else s')"

definition scale_intensity_range ::
  "real \<Rightarrow> real \<Rightarrow> real \<Rightarrow> real \<Rightarrow> bool \<Rightarrow> real meta_tensor \<Rightarrow> real meta_tensor" where
  "scale_intensity_range amin amax bmin bmax cl m =
     m\<lparr>array := tmap (scale_intensity amin amax bmin bmax cl) (array m)\<rparr>"

subsection \<open>Orientation\<close>

text \<open>
  An axis code names an anatomical axis (0: left-right, 1: posterior-anterior,
  2: inferior-superior) and a direction. \<open>ornt_transform\<close> gives, for every source
  axis, the target axis it becomes and whether it is flipped, as nibabel's function of
  that name does; it raises when the codes do not name every axis once.
\<close>

definition code_ornt :: "char \<Rightarrow> (nat \<times> bool) option" where
  "code_ornt c =
     (if c = CHR ''R'' then Some (0, True) else if c = CHR ''L'' then Some (0, False)
      else if c = CHR ''A'' then Some (1, True) else if c = CHR ''P'' then Some (1, False)
      else if c = CHR ''S'' then Some (2, True) else if c = CHR ''I'' then Some (2, False)
      else None)"

definition axcodes2ornt :: "string \<Rightarrow> error + (nat \<times> bool) list" where
  "axcodes2ornt cs =
     (case those (map code_ornt cs) of None \<Rightarrow> Inl ValueError | Some ornt \<Rightarrow> Inr ornt)"

text \<open>The position of anatomical axis \<open>a\<close> in an orientation, with its direction there.\<close>

definition find_axis :: "(nat \<times> bool) list \<Rightarrow> nat \<Rightarrow> (nat \<times> bool) option" where
  "find_axis ornt a =
     map_option (\<lambda>(i, c). (i, snd c)) (find (\<lambda>(i, c). fst c = a) (enumerate 0 ornt))"

definition ornt_transform ::
  "(nat \<times> bool) list \<Rightarrow> (nat \<times> bool) list \<Rightarrow> error + (nat \<times> bool) list" where
  "ornt_transform start_ornt end_ornt =
     (if length start_ornt \<noteq> length end_ornt then Inl ValueError
      else if list_ex (\<lambda>e. find_axis start_ornt (fst e) = None) end_ornt then Inl ValueError
      else
        (case those (map (\<lambda>s. map_option (\<lambda>(j, dir). (j, dir \<noteq> snd s))
                                            (find_axis end_ornt (fst s))) start_ornt) of
           None \<Rightarrow> Inl ValueError
         | Some t \<Rightarrow> Inr t))"

text \<open>
  Applying a transform \<open>t\<close> (target axis and flip flag per source spatial axis) to a
  channel-first tensor, as \<^verbatim>\<open>torch.flip\<close> on the flipped source axes followed by
  \<^verbatim>\<open>permute\<close> does: target axis \<open>j\<close> is the source axis \<open>i\<close> with \<open>fst (t ! i) = j\<close>,
  reversed when \<open>snd (t ! i)\<close>. \<open>sp\<close> is the spatial shape of the source.
\<close>

definition reorient_index :: "(nat \<times> bool) list \<Rightarrow> nat list \<Rightarrow> nat list \<Rightarrow> nat list" where
  "reorient_index t sp idx =
     take 1 idx @ map (\<lambda>(i, a, flip). let v = idx ! Suc a
                                      in if flip then sp ! i - 1 - v else v) (enumerate 0 t)"

definition reorient :: "(nat \<times> bool) list \<Rightarrow> 'a tensor \<Rightarrow> error + 'a tensor" where
  "reorient t x =
     (case shape x of
        [] \<Rightarrow> Inl ValueError
      | c # sp \<Rightarrow>
          (case those (map (\<lambda>j. map_option fst (find_axis t j)) [0..<length t]) of
             None \<Rightarrow> Inl ValueError
           | Some src \<Rightarrow>
               Inr \<lparr>shape = c # map (\<lambda>i. sp ! i) src,
                    elem = (\<lambda>idx. elem x (reorient_index t sp idx))\<rparr>))"

definition orientation :: "string \<Rightarrow> 'a meta_tensor \<Rightarrow> error + 'a meta_tensor" where
  "orientation target m =
     (let sr = length (shape (array m)) - 1 in
      case axcodes2ornt (axcodes_of m) of
        Inl e \<Rightarrow> Inl e
      | Inr src \<Rightarrow>
          (case axcodes2ornt (take sr target) of
             Inl e \<Rightarrow> Inl e
           | Inr dst \<Rightarrow>
               (case ornt_transform src dst of
                  Inl e \<Rightarrow> Inl e
                | Inr t \<Rightarrow>
                    (case reorient t (array m) of
                       Inl e \<Rightarrow> Inl e
                     | Inr y \<Rightarrow> Inr \<lparr>array = y, axcodes_of = take sr target\<rparr>))))"

subsection \<open>RandSpatialCrop\<close>

text \<open>
  \<^verbatim>\<open>RandSpatialCrop(roi_size, random_center=..)\<close> with the defaults
  \<^verbatim>\<open>max_roi_size=None, random_size=False\<close>. The crop is a slice \<open>[start : start + roi]\<close>
  per spatial axis, and a slice ends where the axis ends. With \<^verbatim>\<open>random_center=False\<close>
  the library crops about the centre of the volume: the slice starts at
  \<open>max (d // 2 - roi // 2, 0)\<close>. With \<^verbatim>\<open>random_center=True\<close> it draws the start of
  every axis that is longer than the patch.
\<close>

definition center_start :: "nat \<Rightarrow> nat \<Rightarrow> nat" where
  "center_start d r = d div 2 - r div 2"

definition slice_len :: "nat \<Rightarrow> nat \<Rightarrow> nat \<Rightarrow> nat" where
  "slice_len d start r = min (start + r) d - min start d"

fun random_starts :: "rng \<Rightarrow> nat list \<Rightarrow> nat list \<Rightarrow> nat list \<times> rng" where
  "random_starts r (d # ds) (p # ps) =
     (if d > min d p
      then (case randint r 0 (d - min d p + 1) of (s, r') \<Rightarrow>
              (case random_starts r' ds ps of (ss, r'') \<Rightarrow> (s # ss, r'')))
      else (case random_starts r ds ps of (ss, r') \<Rightarrow> (0 # ss, r')))"
| "random_starts r _ _ = ([], r)"

definition crop :: "nat list \<Rightarrow> nat list \<Rightarrow> 'a tensor \<Rightarrow> 'a tensor" where
  "crop starts sizes x =
     \<lparr>shape = take 1 (shape x)
                @ map (\<lambda>(d, s, r). slice_len d s r) (zip (tl (shape x)) (zip starts sizes)),
      elem = (\<lambda>idx. elem x (take 1 idx @ map (\<lambda>(i, s). i + s) (zip (tl idx) starts)))\<rparr>"

definition rand_spatial_crop ::
  "nat list \<Rightarrow> bool \<Rightarrow> 'a meta_tensor \<times> rng \<Rightarrow> error + 'a meta_tensor \<times> rng" where
  "rand_spatial_crop roi rc mr =
     (case mr of (m, r) \<Rightarrow>
        let img_size = tl (shape (array m)) in
        if length roi \<noteq> length img_size then Inl ValueError
        else if rc then
          (case random_starts r img_size roi of (starts, r') \<Rightarrow>
             Inr (m\<lparr>array := crop starts (map (\<lambda>(d, p). min d p) (zip img_size roi)) (array m)\<rparr>, r'))
        else
          Inr (m\<lparr>array := crop (map (\<lambda>(d, p). center_start d p) (zip img_size roi)) roi (array m)\<rparr>, r))"

subsection \<open>Compose and the two chains of the script\<close>

fun apply_transform ::
  "(string \<rightharpoonup> nifti) \<Rightarrow> transform \<Rightarrow> data \<times> rng \<Rightarrow> error + data \<times> rng" where
  "apply_transform fs (LoadImage io cf) (Filename p, r) =
     (case load_image fs p of Inl e \<Rightarrow> Inl e | Inr m \<Rightarrow> Inr (Img m, r))"
| "apply_transform fs (ScaleIntensityRange amin amax bmin bmax cl) (Img m, r) =
     Inr (Img (scale_intensity_range amin amax bmin bmax cl m), r)"
| "apply_transform fs (Orientation target) (Img m, r) =
     (case orientation target m of Inl e \<Rightarrow> Inl e | Inr m' \<Rightarrow> Inr (Img m', r))"
| "apply_transform fs (RandSpatialCrop roi rc) (Img m, r) =
     (case rand_spatial_crop roi rc (m, r) of Inl e \<Rightarrow> Inl e | Inr (m', r') \<Rightarrow> Inr (Img m', r'))"
| "apply_transform fs _ _ = Inl TypeError"

fun Compose ::
  "(string \<rightharpoonup> nifti) \<Rightarrow> transform list \<Rightarrow> data \<times> rng \<Rightarrow> error + data \<times> rng" where
  "Compose fs [] dr = Inr dr"
| "Compose fs (t # ts) dr =
     (case apply_transform fs t dr of Inl e \<Rightarrow> Inl e | Inr dr' \<Rightarrow> Compose fs ts dr')"

definition amin :: real where "amin = -22.18"
definition amax :: real where "amax = 450.0"

definition image_transforms :: "transform list" where
  "image_transforms =
     [LoadImage True True,
      ScaleIntensityRange amin amax 0.0 1.0 True,
      Orientation ''RAS'',
      RandSpatialCrop [512, 512, 160] False]"

definition seg_transforms :: "transform list" where
  "seg_transforms =
     [LoadImage True True,
      Orientation ''RAS'',
      RandSpatialCrop [512, 512, 160] False]"

text \<open>What a chain returns for a file name: the tensor, or the error it raised.\<close>

definition run_chain ::
  "(string \<rightharpoonup> nifti) \<Rightarrow> transform list \<Rightarrow> rng \<Rightarrow> string \<Rightarrow> error + real tensor" where
  "run_chain fs ts r p =
     (case Compose fs ts (Filename p, r) of
        Inl e \<Rightarrow> Inl e
      | Inr (Filename q, r') \<Rightarrow> Inl TypeError
      | Inr (Img m, r') \<Rightarrow> Inr (array m))"

section \<open>The evaluation step\<close>

text \<open>
  The network is \<^verbatim>\<open>UNet(spatial_dims=3, in_channels=1, out_channels=1, ...)\<close> with the
  weights read from \<^verbatim>\<open>models/model.pth\<close>. Its forward function is a parameter: it takes
  the configuration and the module (its \<^verbatim>\<open>training\<close> flag and its parameters and
  buffers), and returns the output with the module as the call leaves it, or raises.
\<close>

record unet_config =
  spatial_dims :: nat
  in_channels :: nat
  out_channels :: nat
  channels :: "nat list"
  strides :: "nat list"
  num_res_units :: nat

record 'w module =
  training :: bool
  state_dict :: 'w

type_synonym 'w forward =
  "unet_config \<Rightarrow> 'w module \<Rightarrow> real tensor \<Rightarrow> error + real tensor \<times> 'w module"

definition unet_args :: unet_config where
  "unet_args =
     \<lparr>spatial_dims = 3, in_channels = 1, out_channels = 1,
      channels = [16, 32, 64, 128, 256], strides = [2, 2, 2, 2], num_res_units = 2\<rparr>"

text \<open>
  \<^verbatim>\<open>predictions\<close> is a boolean tensor on the first branch and an integer tensor on the
  second.
\<close>

datatype pred = BoolT "bool tensor" | IntT "int tensor"

definition sigmoid :: "real \<Rightarrow> real" where
  "sigmoid x = 1 / (1 + exp (- x))"

text \<open>\<^verbatim>\<open>torch.softmax(x, dim=d)\<close> and \<^verbatim>\<open>torch.argmax(y, dim=d)\<close> (the first maximum wins).\<close>

definition softmax :: "nat \<Rightarrow> real tensor \<Rightarrow> real tensor" where
  "softmax d x =
     \<lparr>shape = shape x,
      elem = (\<lambda>idx. exp (elem x idx) / (\<Sum>c\<leftarrow>[0..<shape x ! d]. exp (elem x (idx[d := c]))))\<rparr>"

fun argmax_list :: "real list \<Rightarrow> nat" where
  "argmax_list [] = 0"
| "argmax_list [x] = 0"
| "argmax_list (x # y # ys) =
     (let k = argmax_list (y # ys) in if (y # ys) ! k \<le> x then 0 else Suc k)"

definition insert_at :: "nat \<Rightarrow> 'a \<Rightarrow> 'a list \<Rightarrow> 'a list" where
  "insert_at d c idx = take d idx @ c # drop d idx"

definition remove_at :: "nat \<Rightarrow> 'a list \<Rightarrow> 'a list" where
  "remove_at d xs = take d xs @ drop (Suc d) xs"

definition argmax :: "nat \<Rightarrow> real tensor \<Rightarrow> error + int tensor" where
  "argmax d y =
     (if shape y ! d = 0 then Inl IndexError
      else Inr \<lparr>shape = remove_at d (shape y),
                elem = (\<lambda>idx. int (argmax_list (map (\<lambda>c. elem y (insert_at d c idx)) [0..<shape y ! d])))\<rparr>)"

text \<open>
  \<^verbatim>\<open>evaluation_step(engine, batch)\<close>, lines 50 to 64: \<^verbatim>\<open>model.eval()\<close>, the forward pass
  into \<^verbatim>\<open>outputs\<close>, the forward pass into \<^verbatim>\<open>logits\<close>, the branch on
  \<^verbatim>\<open>logits.shape[1]\<close> (an \<^verbatim>\<open>IndexError\<close> when there is no second axis). Beside the
  returned pair it gives the module as the two calls left it.
\<close>

definition evaluation_step ::
  "'w forward \<Rightarrow> unet_config \<Rightarrow> 'w module \<Rightarrow> real tensor \<times> real tensor
     \<Rightarrow> error + (pred \<times> real tensor) \<times> 'w module" where
  "evaluation_step fwd cfg model batch =
     (let model1 = model\<lparr>training := False\<rparr> in
      case batch of (images, masks) \<Rightarrow>
        (case fwd cfg model1 images of
           Inl e \<Rightarrow> Inl e
         | Inr (outputs, model2) \<Rightarrow>
             (case fwd cfg model2 images of
                Inl e \<Rightarrow> Inl e
              | Inr (logits, model3) \<Rightarrow>
                  if length (shape logits) < 2 then Inl IndexError
                  else if shape logits ! 1 = 1
                  then Inr ((BoolT (tmap (\<lambda>v. sigmoid v > 0.5) logits), masks), model3)
                  else
                    (case argmax 1 (softmax 1 logits) of
                       Inl e \<Rightarrow> Inl e
                     | Inr predictions \<Rightarrow> Inr ((IntT predictions, masks), model3)))))"

text \<open>
  The variant with one forward pass, to compare \<open>evaluation_step\<close> with: the same text
  without line 55.
\<close>

definition evaluation_step_once ::
  "'w forward \<Rightarrow> unet_config \<Rightarrow> 'w module \<Rightarrow> real tensor \<times> real tensor
     \<Rightarrow> error + (pred \<times> real tensor) \<times> 'w module" where
  "evaluation_step_once fwd cfg model batch =
     (let model1 = model\<lparr>training := False\<rparr> in
      case batch of (images, masks) \<Rightarrow>
        (case fwd cfg model1 images of
           Inl e \<Rightarrow> Inl e
         | Inr (logits, model3) \<Rightarrow>
             if length (shape logits) < 2 then Inl IndexError
             else if shape logits ! 1 = 1
             then Inr ((BoolT (tmap (\<lambda>v. sigmoid v > 0.5) logits), masks), model3)
             else
               (case argmax 1 (softmax 1 logits) of
                  Inl e \<Rightarrow> Inl e
                | Inr predictions \<Rightarrow> Inr ((IntT predictions, masks), model3))))"

section \<open>The metrics\<close>

text \<open>
  \<^verbatim>\<open>DiceMetric(include_background=True, reduction="mean")\<close>. A call scores every item of
  the batch and extends the buffer by one row per item, one score per channel; the score
  of a channel is \<open>2 |P \<inter> G| / (|P| + |G|)\<close> over the voxels predicted as class 1 (\<open>P\<close>)
  and labelled 1 (\<open>G\<close>), and not a number when \<open>G\<close> is empty (\<^verbatim>\<open>ignore_empty=True\<close>,
  the default); \<open>None\<close> stands for not a number. Only predictions and labels of one shape
  with a single channel are scored here, which is what a one-channel network gives; for
  anything else the call is taken to raise.
\<close>

definition pred_int :: "pred \<Rightarrow> int tensor" where
  "pred_int p = (case p of BoolT t \<Rightarrow> tmap (\<lambda>b. if b then 1 else 0) t | IntT t \<Rightarrow> t)"

definition count_where :: "(nat list \<Rightarrow> bool) \<Rightarrow> nat list \<Rightarrow> nat" where
  "count_where P sh = length (filter P (indices sh))"

definition compute_channel :: "(nat list \<Rightarrow> bool) \<Rightarrow> (nat list \<Rightarrow> bool) \<Rightarrow> nat list \<Rightarrow> real option" where
  "compute_channel x_pred x sh =
     (let y_o = count_where x sh in
      if y_o > 0
      then Some (2 * real (count_where (\<lambda>i. x_pred i \<and> x i) sh) / (real y_o + real (count_where x_pred sh)))
      else None)"

definition dice_compute :: "pred \<Rightarrow> real tensor \<Rightarrow> error + real option list list" where
  "dice_compute y_pred y =
     (let p = pred_int y_pred in
      if length (shape p) < 3 then Inl ValueError
      else if shape p \<noteq> shape y \<or> shape p ! 1 \<noteq> 1 then Inl ValueError
      else Inr (map (\<lambda>b. [compute_channel (\<lambda>i. elem p (b # 0 # i) = 1) (\<lambda>i. elem y (b # 0 # i) = 1)
                               (drop 2 (shape p))])
                    [0..<shape p ! 0]))"

text \<open>
  \<^verbatim>\<open>aggregate()\<close> with the mean reduction: the mean over the channels that are numbers,
  per row, then the mean over the rows that have one; 0 where there is none. An empty
  buffer raises.
\<close>

definition nanmean :: "real option list \<Rightarrow> real option" where
  "nanmean xs =
     (let ys = List.map_filter id xs
      in if ys = [] then None else Some (sum_list ys / real (length ys)))"

definition dice_aggregate :: "real option list list \<Rightarrow> error + real" where
  "dice_aggregate buffer =
     (if buffer = [] then Inl ValueError
      else Inr (case nanmean (map nanmean buffer) of None \<Rightarrow> 0 | Some v \<Rightarrow> v))"

text \<open>
  \<^verbatim>\<open>Recall(average=True)\<close> and \<^verbatim>\<open>Precision(average=False)\<close> of ignite are parameters:
  an accumulator that is reset when the epoch starts, updated with the output of every
  iteration, and computed when the epoch completes.
\<close>

record ('s, 'v) ignite_metric =
  reset :: 's
  update :: "'s \<Rightarrow> pred \<times> real tensor \<Rightarrow> error + 's"
  compute :: "'s \<Rightarrow> error + 'v"

section \<open>The evaluator and its handlers\<close>

datatype 'v line = Text string | MeanDiceScore real | RecallPrecision 'v 'v

record ('w, 's, 'v) evaluator =
  model :: "'w module"
  mean_dice_metric :: "real option list list"
  recall_acc :: 's
  precision_acc :: 's
  metrics :: "('v \<times> 'v) option"
  store_predictions :: "(int tensor \<times> real tensor) list"
  stdout :: "'v line list"

text \<open>\<^verbatim>\<open>t[k]\<close> on a tensor, and what the loader's collate function makes of one item.\<close>

definition select :: "nat \<Rightarrow> 'a tensor \<Rightarrow> error + 'a tensor" where
  "select k t =
     (case shape t of
        [] \<Rightarrow> Inl IndexError
      | n # sh \<Rightarrow> if k < n then Inr \<lparr>shape = sh, elem = (\<lambda>idx. elem t (k # idx))\<rparr> else Inl IndexError)"

definition collate1 :: "'a tensor \<Rightarrow> 'a tensor" where
  "collate1 t = \<lparr>shape = 1 # shape t, elem = (\<lambda>idx. elem t (tl idx))\<rparr>"

text \<open>Lines 69 to 72.\<close>

definition update_dice_metric ::
  "('w, 's, 'v) evaluator \<Rightarrow> pred \<times> real tensor \<Rightarrow> error + ('w, 's, 'v) evaluator" where
  "update_dice_metric st out =
     (case out of (predictions, masks) \<Rightarrow>
        (case dice_compute predictions masks of
           Inl e \<Rightarrow> Inl e
         | Inr rows \<Rightarrow> Inr (st\<lparr>mean_dice_metric := mean_dice_metric st @ rows\<rparr>)))"

text \<open>
  Lines 88 to 94: one record per element of \<^verbatim>\<open>predictions\<close> along its first axis;
  \<^verbatim>\<open>prediction*1\<close> turns a boolean into 0 or 1.
\<close>

fun save_loop ::
  "int tensor \<Rightarrow> real tensor \<Rightarrow> nat list \<Rightarrow> (int tensor \<times> real tensor) list
     \<Rightarrow> error + (int tensor \<times> real tensor) list" where
  "save_loop p g [] store = Inr store"
| "save_loop p g (idx # rest) store =
     (case select idx p of
        Inl e \<Rightarrow> Inl e
      | Inr prediction \<Rightarrow>
          (case select idx g of
             Inl e \<Rightarrow> Inl e
           | Inr gt \<Rightarrow> save_loop p g rest (store @ [(prediction, gt)])))"

definition save_segmentation_masks ::
  "('w, 's, 'v) evaluator \<Rightarrow> pred \<times> real tensor \<Rightarrow> error + ('w, 's, 'v) evaluator" where
  "save_segmentation_masks st out =
     (case out of (predictions, ground_truth) \<Rightarrow>
        (case shape (pred_int predictions) of
           [] \<Rightarrow> Inl TypeError
         | n # sh \<Rightarrow>
             (case save_loop (pred_int predictions) ground_truth [0..<n] (store_predictions st) of
                Inl e \<Rightarrow> Inl e
              | Inr store \<Rightarrow> Inr (st\<lparr>store_predictions := store\<rparr>))))"

text \<open>Lines 75 to 79: the score is aggregated and printed; the assignment is to a local.\<close>

definition log_mean_dice :: "('w, 's, 'v) evaluator \<Rightarrow> error + ('w, 's, 'v) evaluator" where
  "log_mean_dice st =
     (case dice_aggregate (mean_dice_metric st) of
        Inl e \<Rightarrow> Inl e
      | Inr mean_dice_score \<Rightarrow> Inr (st\<lparr>stdout := stdout st @ [MeanDiceScore mean_dice_score]\<rparr>))"

text \<open>
  The dataset and the loader: item \<open>i\<close> is the image chain on \<open>imgs ! i\<close> and the mask
  chain on \<open>segs ! i\<close>, both seeded with the same random state, and a batch is one item.
\<close>

definition getitem ::
  "(string \<rightharpoonup> nifti) \<Rightarrow> (nat \<Rightarrow> rng) \<Rightarrow> string list \<Rightarrow> string list \<Rightarrow> nat
     \<Rightarrow> error + real tensor \<times> real tensor" where
  "getitem fs seeds imgs segs i =
     (case run_chain fs image_transforms (seeds i) (imgs ! i) of
        Inl e \<Rightarrow> Inl e
      | Inr img \<Rightarrow>
          (case run_chain fs seg_transforms (seeds i) (segs ! i) of
             Inl e \<Rightarrow> Inl e
           | Inr seg \<Rightarrow> Inr (img, seg)))"

text \<open>
  One iteration of \<^verbatim>\<open>evaluator.run\<close>: the batch is loaded, the step runs, and the
  handlers of \<^verbatim>\<open>ITERATION_COMPLETED\<close> run in the order they were attached (lines 69, 81,
  82, 88).
\<close>

definition iteration ::
  "'w forward \<Rightarrow> unet_config \<Rightarrow> ('s, 'v) ignite_metric \<Rightarrow> ('s, 'v) ignite_metric
     \<Rightarrow> ('w, 's, 'v) evaluator \<Rightarrow> real tensor \<times> real tensor \<Rightarrow> error + ('w, 's, 'v) evaluator" where
  "iteration fwd cfg recall precision st batch =
     (case evaluation_step fwd cfg (model st) batch of
        Inl e \<Rightarrow> Inl e
      | Inr (out, m) \<Rightarrow>
          (case update_dice_metric (st\<lparr>model := m\<rparr>) out of
             Inl e \<Rightarrow> Inl e
           | Inr st1 \<Rightarrow>
               (case update recall (recall_acc st1) out of
                  Inl e \<Rightarrow> Inl e
                | Inr ra \<Rightarrow>
                    (case update precision (precision_acc st1) out of
                       Inl e \<Rightarrow> Inl e
                     | Inr pa \<Rightarrow>
                         save_segmentation_masks (st1\<lparr>recall_acc := ra, precision_acc := pa\<rparr>) out))))"

fun iterations ::
  "'w forward \<Rightarrow> unet_config \<Rightarrow> ('s, 'v) ignite_metric \<Rightarrow> ('s, 'v) ignite_metric
     \<Rightarrow> (nat \<Rightarrow> error + real tensor \<times> real tensor) \<Rightarrow> nat list
     \<Rightarrow> ('w, 's, 'v) evaluator \<Rightarrow> error + ('w, 's, 'v) evaluator" where
  "iterations fwd cfg recall precision ds [] st = Inr st"
| "iterations fwd cfg recall precision ds (i # rest) st =
     (case ds i of
        Inl e \<Rightarrow> Inl e
      | Inr item \<Rightarrow>
          (case iteration fwd cfg recall precision st (collate1 (fst item), collate1 (snd item)) of
             Inl e \<Rightarrow> Inl e
           | Inr st' \<Rightarrow> iterations fwd cfg recall precision ds rest st'))"

text \<open>
  \<^verbatim>\<open>evaluator.run(test_loader)\<close>, one epoch over a dataset of \<open>n\<close> items: the two ignite
  metrics are reset, the iterations run, the metrics are computed on \<^verbatim>\<open>EPOCH_COMPLETED\<close>
  and \<^verbatim>\<open>log_mean_dice\<close> runs on \<^verbatim>\<open>COMPLETED\<close>.
\<close>

definition run ::
  "'w forward \<Rightarrow> unet_config \<Rightarrow> ('s, 'v) ignite_metric \<Rightarrow> ('s, 'v) ignite_metric
     \<Rightarrow> (nat \<Rightarrow> error + real tensor \<times> real tensor) \<Rightarrow> nat
     \<Rightarrow> ('w, 's, 'v) evaluator \<Rightarrow> error + ('w, 's, 'v) evaluator" where
  "run fwd cfg recall precision ds n st =
     (case iterations fwd cfg recall precision ds [0..<n]
             (st\<lparr>recall_acc := reset recall, precision_acc := reset precision\<rparr>) of
        Inl e \<Rightarrow> Inl e
      | Inr st1 \<Rightarrow>
          (case compute recall (recall_acc st1) of
             Inl e \<Rightarrow> Inl e
           | Inr r \<Rightarrow>
               (case compute precision (precision_acc st1) of
                  Inl e \<Rightarrow> Inl e
                | Inr p \<Rightarrow> log_mean_dice (st1\<lparr>metrics := Some (r, p)\<rparr>))))"

section \<open>The renderer\<close>

text \<open>
  An animation is its frames and the interval between them in milliseconds; a frame is
  the title of the axes and the picture shown. What matplotlib asks of the picture (two
  axes) is not part of the model.
\<close>

record frame =
  title :: string
  picture :: "real tensor"

record animation =
  frames :: "frame list"
  interval :: nat

definition digit_char :: "nat \<Rightarrow> char" where
  "digit_char d = char_of (48 + d)"

fun show_nat :: "nat \<Rightarrow> string" where
  "show_nat n = (if n < 10 then [digit_char n] else show_nat (n div 10) @ [digit_char (n mod 10)])"

text \<open>\<^verbatim>\<open>t.squeeze()\<close> drops the axes of length one, \<^verbatim>\<open>t.T\<close> reverses the axes.\<close>

fun unsqueeze_index :: "nat list \<Rightarrow> nat list \<Rightarrow> nat list" where
  "unsqueeze_index [] idx = []"
| "unsqueeze_index (n # sh) idx =
     (if n = 1 then 0 # unsqueeze_index sh idx
      else (case idx of [] \<Rightarrow> [] | i # rest \<Rightarrow> i # unsqueeze_index sh rest))"

definition squeeze :: "'a tensor \<Rightarrow> 'a tensor" where
  "squeeze t =
     \<lparr>shape = filter (\<lambda>n. n \<noteq> 1) (shape t),
      elem = (\<lambda>idx. elem t (unsqueeze_index (shape t) idx))\<rparr>"

definition transpose_T :: "'a tensor \<Rightarrow> 'a tensor" where
  "transpose_T t = \<lparr>shape = rev (shape t), elem = (\<lambda>idx. elem t (rev idx))\<rparr>"

text \<open>
  \<^verbatim>\<open>gif_generator(image)\<close>, lines 145 to 157: \<^verbatim>\<open>image[0]\<close> is drawn first (an
  \<^verbatim>\<open>IndexError\<close> when there is none), and frame \<open>k\<close> of
  \<^verbatim>\<open>FuncAnimation(fig, update, frames=image.shape[0], interval=300)\<close> is what
  \<^verbatim>\<open>update(k)\<close> draws: \<^verbatim>\<open>image[k]\<close> under the title \<^verbatim>\<open>Slice k\<close>.
\<close>

definition gif_generator :: "real tensor \<Rightarrow> error + animation" where
  "gif_generator img =
     (case select 0 img of
        Inl e \<Rightarrow> Inl e
      | Inr image_slice \<Rightarrow>
          Inr \<lparr>frames = map (\<lambda>k. \<lparr>title = ''Slice '' @ show_nat k,
                                    picture = \<lparr>shape = tl (shape img),
                                                elem = (\<lambda>idx. elem img (k # idx))\<rparr>\<rparr>)
                             [0..<hd (shape img)],
               interval = 300\<rparr>)"

section \<open>The entry function\<close>

text \<open>
  What the script reads and writes: the working directory, the volumes and the weight
  files by path, the directories that exist, the GIF files written, and the random state
  the dataset seeds the chains of item \<open>i\<close> with. The libraries the script cannot see
  into are parameters: the forward function of the network, whether
  \<^verbatim>\<open>load_state_dict\<close> accepts a weights file for a configuration, and the two ignite
  metrics.
\<close>

record 'w world =
  cwd :: string
  volumes :: "string \<rightharpoonup> nifti"
  weight_files :: "string \<rightharpoonup> 'w"
  dirs :: "string set"
  gif_files :: "string \<rightharpoonup> animation"
  random_states :: "nat \<Rightarrow> rng"

record ('w, 's, 'v) libraries =
  unet_forward :: "'w forward"
  accepts_state_dict :: "unet_config \<Rightarrow> 'w \<Rightarrow> bool"
  Recall :: "('s, 'v) ignite_metric"
  Precision :: "('s, 'v) ignite_metric"

text \<open>\<^verbatim>\<open>os.path.dirname\<close> on POSIX paths, and \<^verbatim>\<open>ani.save(path, writer="pillow")\<close>.\<close>

definition dirname :: "string \<Rightarrow> string" where
  "dirname p =
     (let h = rev (dropWhile (\<lambda>c. c \<noteq> CHR ''/'') (rev p))
      in if h \<noteq> [] \<and> \<not> list_all (\<lambda>c. c = CHR ''/'') h
         then rev (dropWhile (\<lambda>c. c = CHR ''/'') (rev h)) else h)"

definition ani_save :: "'w world \<Rightarrow> string \<Rightarrow> animation \<Rightarrow> error + 'w world" where
  "ani_save w p ani =
     (if dirname p \<in> dirs w then Inr (w\<lparr>gif_files := (gif_files w)(p \<mapsto> ani)\<rparr>)
      else Inl FileNotFoundError)"

text \<open>Lines 161 to 163, over \<^verbatim>\<open>enumerate(masks)\<close>.\<close>

fun gif_loop :: "string \<Rightarrow> (nat \<times> real tensor) list \<Rightarrow> 'w world \<Rightarrow> error + 'w world" where
  "gif_loop ROOT_PATH [] w = Inr w"
| "gif_loop ROOT_PATH ((idx, img) # rest) w =
     (case gif_generator img of
        Inl e \<Rightarrow> Inl e
      | Inr ani \<Rightarrow>
          (case ani_save w (path_join ROOT_PATH (''saved_gifs/mask'' @ show_nat idx @ ''.gif'')) ani of
             Inl e \<Rightarrow> Inl e
           | Inr w' \<Rightarrow> gif_loop ROOT_PATH rest w'))"

definition nth_item :: "'a list \<Rightarrow> nat \<Rightarrow> error + 'a" where
  "nth_item xs i = (if i < length xs then Inr (xs ! i) else Inl IndexError)"

text \<open>
  Lines 140 to 163: the four tensors drawn, and the loop that draws them. The stored
  masks are drawn as they are; the predicted ones, integers, are read as reals for the
  picture.
\<close>

definition render ::
  "string \<Rightarrow> (int tensor \<times> real tensor) list \<Rightarrow> 'w world \<Rightarrow> error + 'w world" where
  "render ROOT_PATH store w =
     (case nth_item store 0 of
        Inl e \<Rightarrow> Inl e
      | Inr rec0 \<Rightarrow>
          (case nth_item store 1 of
             Inl e \<Rightarrow> Inl e
           | Inr rec1 \<Rightarrow>
               (let mask = transpose_T (squeeze (tmap real_of_int (fst rec0)));
                    ground_truth = transpose_T (squeeze (snd rec0));
                    mask2 = transpose_T (squeeze (tmap real_of_int (fst rec1)));
                    ground_truth2 = transpose_T (squeeze (snd rec1));
                    masks = [mask, ground_truth, mask2, ground_truth2]
                in gif_loop ROOT_PATH (enumerate 0 masks) w)))"

text \<open>
  \<^verbatim>\<open>generate_output()\<close>. It returns the triple, and with it the world as it leaves it,
  the stored predictions and the lines printed.
\<close>

definition generate_output ::
  "('w, 's, 'v) libraries \<Rightarrow> 'w world
     \<Rightarrow> error + (real \<times> 'v \<times> 'v) \<times> 'w world \<times> (int tensor \<times> real tensor) list \<times> 'v line list" where
  "generate_output lib w =
     (let ROOT_PATH = cwd w;
          MODEL_PATH = path_join (path_join ROOT_PATH ''models'') ''model.pth'';
          DATA_PATH = path_join ROOT_PATH ''data''
      in
      case weight_files w MODEL_PATH of
        None \<Rightarrow> Inl FileNotFoundError
      | Some model_weights \<Rightarrow>
          if \<not> accepts_state_dict lib unet_args model_weights then Inl RuntimeError
          else
            (let imgs = [path_join DATA_PATH ''volume-20.nii'', path_join DATA_PATH ''volume-25.nii''];
                 segs = [path_join DATA_PATH ''new-segmentation-20.nii'',
                         path_join DATA_PATH ''new-segmentation-25.nii''];
                 output_dir = path_join ROOT_PATH ''saved_gifs'';
                 w1 = w\<lparr>dirs := insert output_dir (dirs w)\<rparr>;
                 evaluator =
                   \<lparr>model = \<lparr>training = True, state_dict = model_weights\<rparr>,
                    mean_dice_metric = [],
                    recall_acc = reset (Recall lib), precision_acc = reset (Precision lib),
                    metrics = None, store_predictions = [],
                    stdout = [Text ''Initiating testing...'']\<rparr>
             in
             case run (unet_forward lib) unet_args (Recall lib) (Precision lib)
                    (getitem (volumes w1) (random_states w1) imgs segs)
                    (min (length imgs) (length segs)) evaluator of
               Inl e \<Rightarrow> Inl e
             | Inr st \<Rightarrow>
                 (case dice_aggregate (mean_dice_metric st) of
                    Inl e \<Rightarrow> Inl e
                  | Inr mean_dice_score \<Rightarrow>
                      (case metrics st of
                         None \<Rightarrow> Inl KeyError
                       | Some (recall, precision) \<Rightarrow>
                           (case render ROOT_PATH (store_predictions st) w1 of
                              Inl e \<Rightarrow> Inl e
                            | Inr w2 \<Rightarrow>
                                Inr ((mean_dice_score, recall, precision), w2,
                                     store_predictions st,
                                     stdout st @ [RecallPrecision recall precision,
                                                  Text ''Initiating GIF Generation'']))))))"

section \<open>Auxiliary definitions for the statements about preprocessing\<close>

text \<open>
  None of these is part of the script. \<open>spatial_steps\<close> names the two spatial steps the
  chains share (reorientation to RAS, then the crop); \<open>coords\<close> is the tensor a volume
  loads to when every voxel holds its own position, so that running \<open>spatial_steps\<close> on it
  tells which voxel of the file each element of the result shows. \<open>marker_volume\<close> is a
  synthetic volume with one marked voxel.
\<close>

definition mt_map :: "('a \<Rightarrow> 'b) \<Rightarrow> 'a meta_tensor \<Rightarrow> 'b meta_tensor" where
  "mt_map f m = \<lparr>array = tmap f (array m), axcodes_of = axcodes_of m\<rparr>"

definition spatial_steps :: "'a meta_tensor \<Rightarrow> error + 'a tensor" where
  "spatial_steps m =
     (case orientation ''RAS'' m of
        Inl e \<Rightarrow> Inl e
      | Inr m' \<Rightarrow>
          (case rand_spatial_crop [512, 512, 160] False (m', (\<lambda>n. 0)) of
             Inl e \<Rightarrow> Inl e
           | Inr (m'', r) \<Rightarrow> Inr (array m'')))"

definition coords :: "nat \<times> nat \<times> nat \<Rightarrow> string \<Rightarrow> nat list meta_tensor" where
  "coords d codes =
     (case d of (nx, ny, nz) \<Rightarrow> \<lparr>array = \<lparr>shape = [1, nx, ny, nz], elem = tl\<rparr>, axcodes_of = codes\<rparr>)"

definition ras :: "(nat \<times> bool) list" where
  "ras = [(0, True), (1, True), (2, True)]"


definition dim_list :: "nifti \<Rightarrow> nat list" where
  "dim_list v = (case dims v of (nx, ny, nz) \<Rightarrow> [nx, ny, nz])"

definition marker_volume :: "nat \<times> nat \<times> nat \<Rightarrow> string \<Rightarrow> nat list \<Rightarrow> real \<Rightarrow> real \<Rightarrow> nifti" where
  "marker_volume d codes p mark bg =
     \<lparr>dims = d, voxel = (\<lambda>q. if q = p then mark else bg), affine_codes = codes\<rparr>"

definition no_random :: rng where
  "no_random = (\<lambda>n. 0)"

section \<open>Auxiliary definitions for the statements about the evaluation\<close>

text \<open>
  None of these is part of the script. \<open>counting_forward\<close> is a stand-in network for
  concrete runs: it returns its input as logits and counts its calls in the module.
  \<open>row_tensor\<close> and \<open>column_tensor\<close> are tensors of a given shape whose elements are
  read from a list by the last index and by the channel index.
\<close>

definition counting_forward :: "nat forward" where
  "counting_forward cfg m x = Inr (x, m\<lparr>state_dict := Suc (state_dict m)\<rparr>)"

definition row_tensor :: "nat list \<Rightarrow> 'a list \<Rightarrow> 'a tensor" where
  "row_tensor sh xs = \<lparr>shape = sh, elem = (\<lambda>idx. xs ! last idx)\<rparr>"

definition column_tensor :: "nat list \<Rightarrow> 'a list \<Rightarrow> 'a tensor" where
  "column_tensor sh xs = \<lparr>shape = sh, elem = (\<lambda>idx. xs ! (idx ! 1))\<rparr>"

section \<open>Preprocessing: what the two chains compute\<close>

lemma find_axis_ras: "find_axis ras a = (if a < 3 then Some (a, True) else None)"
  by (auto simp add: find_axis_def ras_def enumerate_eq_zip upt_rec)

lemma find_axis3:
  "find_axis [(a, da), (b, db), (c, dc)] j =
     (if a = j then Some (0, da) else if b = j then Some (1, db) else if c = j then Some (2, dc) else None)"
  by (simp add: find_axis_def enumerate_eq_zip upt_rec)

lemma length3: "length xs = 3 \<Longrightarrow> \<exists>a b c. xs = [a, b, c]"
  by (cases xs; simp; rename_tac y ys; case_tac ys; simp; rename_tac z zs; case_tac zs; simp)

lemma ornt_transform_ras:
  assumes "ornt_transform src ras = Inr t"
  shows "\<exists>a b c da db dc. t = [(a, da), (b, db), (c, dc)] \<and> a < 3 \<and> b < 3 \<and> c < 3
          \<and> (a = 0 \<or> b = 0 \<or> c = 0) \<and> (a = 1 \<or> b = 1 \<or> c = 1) \<and> (a = 2 \<or> b = 2 \<or> c = 2)"
proof -
  from assms have len: "length src = 3"
    by (simp add: ornt_transform_def ras_def split: if_splits)
  then obtain s0 s1 s2 where src: "src = [s0, s1, s2]" using length3 by blast
  obtain a da b db c dc where s: "s0 = (a, da)" "s1 = (b, db)" "s2 = (c, dc)"
    by (cases s0, cases s1, cases s2) auto
  from assms have cover: "find_axis src 0 \<noteq> None \<and> find_axis src 1 \<noteq> None \<and> find_axis src 2 \<noteq> None"
    by (simp add: ornt_transform_def ras_def split: if_splits)
  from assms have t: "those (map (\<lambda>s. map_option (\<lambda>(j, dir). (j, dir \<noteq> snd s)) (find_axis ras (fst s))) src) = Some t"
    by (simp add: ornt_transform_def split: if_splits option.splits)
  from t have bound: "a < 3 \<and> b < 3 \<and> c < 3" 
    by (simp add: src s find_axis_ras split: if_splits)
  from t bound have teq: "t = [(a, \<not> da), (b, \<not> db), (c, \<not> dc)]"
    by (simp add: src s find_axis_ras)
  from cover have c3: "(a = 0 \<or> b = 0 \<or> c = 0) \<and> (a = 1 \<or> b = 1 \<or> c = 1) \<and> (a = 2 \<or> b = 2 \<or> c = 2)"
    unfolding src s find_axis3 by (simp split: if_splits) 
  show ?thesis using teq bound c3 by blast
qed


lemma lt3: "(a::nat) < 3 \<longleftrightarrow> a = 0 \<or> a = 1 \<or> a = 2"
  by auto

lemma valid_index4:
  "valid_index [c0, d0, d1, d2] idx \<longleftrightarrow> (\<exists>k i j l. idx = [k, i, j, l] \<and> k < c0 \<and> i < d0 \<and> j < d1 \<and> l < d2)"
  by (auto simp add: valid_index_def list_all2_Cons2)

lemma reorient_valid:
  assumes t: "t = [(a, da), (b, db), (c, dc)]" "a < 3" "b < 3" "c < 3"
    "a = 0 \<or> b = 0 \<or> c = 0" "a = 1 \<or> b = 1 \<or> c = 1" "a = 2 \<or> b = 2 \<or> c = 2"
    and x: "shape x = [c0, d0, d1, d2]"
  shows "\<exists>e0 e1 e2. reorient t x = Inr \<lparr>shape = [c0, e0, e1, e2], elem = (\<lambda>idx. elem x (reorient_index t [d0, d1, d2] idx))\<rparr>
          \<and> e0 \<in> {d0, d1, d2} \<and> e1 \<in> {d0, d1, d2} \<and> e2 \<in> {d0, d1, d2}
          \<and> (\<forall>idx. valid_index [c0, e0, e1, e2] idx \<longrightarrow> valid_index [c0, d0, d1, d2] (reorient_index t [d0, d1, d2] idx))"
  using t(2-7) unfolding lt3 t(1)
  apply (elim disjE)
  apply (simp_all add: reorient_def x find_axis3 upt_rec)
  apply (auto simp add: valid_index4 reorient_index_def enumerate_eq_zip upt_rec Let_def)
  done

lemma reorient_tmap: "reorient t (tmap f x) = map_sum id (tmap f) (reorient t x)"
  by (simp add: reorient_def tmap_def split: list.splits option.splits)

lemma crop_tmap: "crop st sz (tmap f x) = tmap f (crop st sz x)"
  by (simp add: crop_def tmap_def)

lemma shape_tmap: "shape (tmap f x) = shape x"
  by (simp add: tmap_def)

lemma orientation_map: "orientation tg (mt_map f m) = map_sum id (mt_map f) (orientation tg m)"
proof -
  have "orientation tg (mt_map f m) =
     (case axcodes2ornt (axcodes_of m) of
        Inl e \<Rightarrow> Inl e
      | Inr src \<Rightarrow>
          (case axcodes2ornt (take (length (shape (array m)) - 1) tg) of
             Inl e \<Rightarrow> Inl e
           | Inr dst \<Rightarrow>
               (case ornt_transform src dst of
                  Inl e \<Rightarrow> Inl e
                | Inr t \<Rightarrow>
                    (case reorient t (array m) of
                       Inl e \<Rightarrow> Inl e
                     | Inr y \<Rightarrow> Inr \<lparr>array = tmap f y, axcodes_of = take (length (shape (array m)) - 1) tg\<rparr>))))"
    by (simp add: orientation_def mt_map_def reorient_tmap shape_tmap Let_def split: sum.split)
  also have "\<dots> = map_sum id (mt_map f) (orientation tg m)"
    by (simp add: orientation_def mt_map_def Let_def split: sum.split)
  finally show ?thesis .
qed

lemma rand_spatial_crop_map:
  "rand_spatial_crop roi False (mt_map f m, r) =
     map_sum id (\<lambda>(m', r'). (mt_map f m', r')) (rand_spatial_crop roi False (m, r))"
  by (simp add: rand_spatial_crop_def mt_map_def shape_tmap crop_tmap Let_def)

lemma spatial_steps_map: "spatial_steps (mt_map f m) = map_sum id (tmap f) (spatial_steps m)"
proof (cases "orientation ''RAS'' m")
  case (Inl e)
  then show ?thesis by (simp add: spatial_steps_def orientation_map)
next
  case (Inr m')
  then show ?thesis
    by (cases "rand_spatial_crop [512, 512, 160] False (m', (\<lambda>n. 0))")
       (simp_all add: spatial_steps_def orientation_map rand_spatial_crop_map, simp add: mt_map_def split: prod.split)
qed

lemma load_coords:
  "load_image fs p = (case fs p of None \<Rightarrow> Inl FileNotFoundError
                      | Some v \<Rightarrow> Inr (mt_map (voxel v) (coords (dims v) (affine_codes v))))"
  by (simp add: load_image_def mt_map_def coords_def tmap_def split: option.splits prod.splits)

lemma seg_chain:
  "run_chain fs seg_transforms r p =
     (case load_image fs p of Inl e \<Rightarrow> Inl e | Inr m \<Rightarrow> spatial_steps m)"
  by (simp add: run_chain_def seg_transforms_def spatial_steps_def rand_spatial_crop_def Let_def
      split: sum.splits)

lemma scale_as_map:
  "scale_intensity_range a b c d e m = mt_map (scale_intensity a b c d e) m"
  by (simp add: scale_intensity_range_def mt_map_def)

lemma image_chain:
  "run_chain fs image_transforms r p =
     (case load_image fs p of Inl e \<Rightarrow> Inl e
      | Inr m \<Rightarrow> spatial_steps (mt_map (scale_intensity amin amax 0 1 True) m))"
  by (simp add: run_chain_def image_transforms_def spatial_steps_def rand_spatial_crop_def Let_def
      scale_as_map split: sum.split)


lemma slice_len_center: "slice_len e (center_start e r) r = min e r"
  by (simp add: slice_len_def center_start_def min_def) linarith

lemma center_fits: "i < min e r \<Longrightarrow> i + center_start e r < e"
  by (simp add: center_start_def min_def split: if_splits)

lemma axcodes2ornt_RAS: "axcodes2ornt (take 3 ''RAS'') = Inr ras"
  by (simp add: axcodes2ornt_def code_ornt_def ras_def)

lemma spatial_steps_4d:
  assumes sh: "shape (array m) = [c0, d0, d1, d2]" and g: "spatial_steps m = Inr g"
  shows "\<exists>t e0 e1 e2.
           shape g = [c0, min e0 512, min e1 512, min e2 160]
         \<and> e0 \<in> {d0, d1, d2} \<and> e1 \<in> {d0, d1, d2} \<and> e2 \<in> {d0, d1, d2}
         \<and> (\<forall>k i j l. elem g [k, i, j, l] =
               elem (array m) (reorient_index t [d0, d1, d2]
                  [k, i + center_start e0 512, j + center_start e1 512, l + center_start e2 160]))
         \<and> (\<forall>idx. valid_index [c0, e0, e1, e2] idx \<longrightarrow>
               valid_index [c0, d0, d1, d2] (reorient_index t [d0, d1, d2] idx))"
proof -
  from g obtain m' where o: "orientation ''RAS'' m = Inr m'"
    by (auto simp add: spatial_steps_def split: sum.splits)
  from o obtain src t where src: "axcodes2ornt (axcodes_of m) = Inr src"
    and t: "ornt_transform src ras = Inr t"
    and y: "reorient t (array m) = Inr (array m')"
    using axcodes2ornt_RAS
    by (auto simp add: orientation_def sh Let_def split: sum.splits)
  from ornt_transform_ras[OF t] obtain a b c da db dc where
    p: "t = [(a, da), (b, db), (c, dc)]" "a < 3" "b < 3" "c < 3"
       "a = 0 \<or> b = 0 \<or> c = 0" "a = 1 \<or> b = 1 \<or> c = 1" "a = 2 \<or> b = 2 \<or> c = 2"
    by blast
  from reorient_valid[OF p sh] y obtain e0 e1 e2 where
    r: "array m' = \<lparr>shape = [c0, e0, e1, e2], elem = (\<lambda>idx. elem (array m) (reorient_index t [d0, d1, d2] idx))\<rparr>"
    and e: "e0 \<in> {d0, d1, d2}" "e1 \<in> {d0, d1, d2}" "e2 \<in> {d0, d1, d2}"
    and v: "\<forall>idx. valid_index [c0, e0, e1, e2] idx \<longrightarrow> valid_index [c0, d0, d1, d2] (reorient_index t [d0, d1, d2] idx)"
    by auto
  from g o have geq: "g = crop [center_start e0 512, center_start e1 512, center_start e2 160] [512, 512, 160] (array m')"
    by (auto simp add: spatial_steps_def rand_spatial_crop_def r Let_def split: sum.splits)
  have "shape g = [c0, min e0 512, min e1 512, min e2 160]"
    by (simp add: geq crop_def r slice_len_center)
  moreover have "\<forall>k i j l. elem g [k, i, j, l] =
               elem (array m) (reorient_index t [d0, d1, d2]
                  [k, i + center_start e0 512, j + center_start e1 512, l + center_start e2 160])"
    by (simp add: geq crop_def r)
  ultimately show ?thesis using e v by blast
qed

lemma spatial_valid:
  assumes g: "spatial_steps (coords (nx, ny, nz) codes) = Inr g" and idx: "valid_index (shape g) idx"
  shows "valid_index [nx, ny, nz] (elem g idx)"
proof -
  have sh: "shape (array (coords (nx, ny, nz) codes)) = [1, nx, ny, nz]"
    by (simp add: coords_def)
  from spatial_steps_4d[OF sh g] obtain t e0 e1 e2 where
    s: "shape g = [1, min e0 512, min e1 512, min e2 160]"
    and el: "\<forall>k i j l. elem g [k, i, j, l] =
               elem (array (coords (nx, ny, nz) codes)) (reorient_index t [nx, ny, nz]
                  [k, i + center_start e0 512, j + center_start e1 512, l + center_start e2 160])"
    and v: "\<forall>idx. valid_index [1, e0, e1, e2] idx \<longrightarrow>
               valid_index [1, nx, ny, nz] (reorient_index t [nx, ny, nz] idx)"
    by blast
  from idx s obtain k i j l where i: "idx = [k, i, j, l]" "k < 1" "i < min e0 512" "j < min e1 512" "l < min e2 160"
    by (auto simp add: valid_index4)
  have "valid_index [1, e0, e1, e2] [k, i + center_start e0 512, j + center_start e1 512, l + center_start e2 160]"
    using i center_fits by (simp add: valid_index4)
  with v have "valid_index [1, nx, ny, nz] (reorient_index t [nx, ny, nz]
       [k, i + center_start e0 512, j + center_start e1 512, l + center_start e2 160])"
    by blast
  then have "valid_index [nx, ny, nz] (tl (reorient_index t [nx, ny, nz]
       [k, i + center_start e0 512, j + center_start e1 512, l + center_start e2 160]))"
    by (auto simp add: valid_index4) (simp add: valid_index_def)
  then show ?thesis using el i(1) by (simp add: coords_def)
qed

lemma chain_source:
  assumes v: "fs p = Some v"
  shows "run_chain fs seg_transforms r p = map_sum id (tmap (voxel v)) (spatial_steps (coords (dims v) (affine_codes v)))"
    and "run_chain fs image_transforms r p =
           map_sum id (tmap (\<lambda>q. scale_intensity amin amax 0 1 True (voxel v q))) (spatial_steps (coords (dims v) (affine_codes v)))"
proof -
  have l: "load_image fs p = Inr (mt_map (voxel v) (coords (dims v) (affine_codes v)))"
    by (simp add: load_coords v)
  show "run_chain fs seg_transforms r p = map_sum id (tmap (voxel v)) (spatial_steps (coords (dims v) (affine_codes v)))"
    by (simp add: seg_chain l spatial_steps_map)
  have "mt_map (scale_intensity amin amax 0 1 True) (mt_map (voxel v) (coords (dims v) (affine_codes v)))
      = mt_map (\<lambda>q. scale_intensity amin amax 0 1 True (voxel v q)) (coords (dims v) (affine_codes v))"
    by (simp add: mt_map_def tmap_def)
  then show "run_chain fs image_transforms r p =
           map_sum id (tmap (\<lambda>q. scale_intensity amin amax 0 1 True (voxel v q))) (spatial_steps (coords (dims v) (affine_codes v)))"
    by (simp add: image_chain l spatial_steps_map)
qed

lemma spatial_valid_dims:
  assumes "spatial_steps (coords (dims v) codes) = Inr g" "valid_index (shape g) idx"
  shows "valid_index (dim_list v) (elem g idx)"
proof -
  obtain nx ny nz where d: "dims v = (nx, ny, nz)" by (cases "dims v") auto
  from assms spatial_valid[of nx ny nz codes g idx] show ?thesis
    by (simp add: dim_list_def d)
qed

text \<open>
  Claim C1, as amended. When the volume and its segmentation have the same voxel
  dimensions and the same axis codes, and both chains return, the two results have the
  same shape, every valid index of them shows the same voxel position of the two files
  (the image one after intensity rescaling), and a marker that is the only voxel of its
  value at one position of both files is found at the same indices of both results.
\<close>

theorem spatial_correspondence:
  assumes "fs pimg = Some v" and "fs pseg = Some s"
    and "dims v = dims s" and "affine_codes v = affine_codes s"
    and "run_chain fs image_transforms r pimg = Inr ti"
    and "run_chain fs seg_transforms r' pseg = Inr ts"
  shows "shape ti = shape ts
       \<and> (\<exists>G. \<forall>idx. valid_index (shape ti) idx \<longrightarrow>
              valid_index (dim_list v) (G idx)
            \<and> elem ti idx = scale_intensity amin amax 0 1 True (voxel v (G idx))
            \<and> elem ts idx = voxel s (G idx))
       \<and> (\<forall>p0 mi ms.
              (\<forall>q. valid_index (dim_list v) q \<longrightarrow>
                   (scale_intensity amin amax 0 1 True (voxel v q) = mi \<longleftrightarrow> q = p0))
            \<and> (\<forall>q. valid_index (dim_list s) q \<longrightarrow> (voxel s q = ms \<longleftrightarrow> q = p0))
            \<longrightarrow> (\<forall>idx. valid_index (shape ti) idx \<longrightarrow> (elem ti idx = mi \<longleftrightarrow> elem ts idx = ms)))"
proof -
  from assms(5) chain_source(2)[of fs pimg v r, OF assms(1)] obtain g where
    g: "spatial_steps (coords (dims v) (affine_codes v)) = Inr g"
    and ti: "ti = tmap (\<lambda>q. scale_intensity amin amax 0 1 True (voxel v q)) g"
    by (cases "spatial_steps (coords (dims v) (affine_codes v))") auto
  from assms(6) chain_source(1)[of fs pseg s r', OF assms(2)] g assms(3,4) have
    ts: "ts = tmap (voxel s) g"
    by auto
  have dl: "dim_list s = dim_list v" by (simp add: dim_list_def assms(3))
  have sh: "shape ti = shape ts" by (simp add: ti ts tmap_def)
  have G: "\<forall>idx. valid_index (shape ti) idx \<longrightarrow>
              valid_index (dim_list v) (elem g idx)
            \<and> elem ti idx = scale_intensity amin amax 0 1 True (voxel v (elem g idx))
            \<and> elem ts idx = voxel s (elem g idx)"
    using spatial_valid_dims[OF g] by (simp add: ti ts tmap_def)
  have M: "\<forall>p0 mi ms.
              (\<forall>q. valid_index (dim_list v) q \<longrightarrow>
                   (scale_intensity amin amax 0 1 True (voxel v q) = mi \<longleftrightarrow> q = p0))
            \<and> (\<forall>q. valid_index (dim_list s) q \<longrightarrow> (voxel s q = ms \<longleftrightarrow> q = p0))
            \<longrightarrow> (\<forall>idx. valid_index (shape ti) idx \<longrightarrow> (elem ti idx = mi \<longleftrightarrow> elem ts idx = ms))"
    using G dl by metis
  from sh G M show ?thesis by blast
qed

lemmas chain_eval = run_chain_def image_transforms_def seg_transforms_def load_image_def
  orientation_def axcodes2ornt_def code_ornt_def scale_intensity_range_def tmap_def
  ornt_transform_def find_axis_def reorient_def reorient_index_def rand_spatial_crop_def
  crop_def slice_len_def center_start_def enumerate_eq_zip upt_rec marker_volume_def Let_def

lemma isr_shape: "map_sum id shape x = Inr sh \<Longrightarrow> \<exists>t. x = Inr t \<and> shape t = sh"
  by (cases x) auto

text \<open>
  A pair of 2 x 2 x 2 volumes stored in LPS order with the marker at voxel (1, 0, 1):
  both chains return, and the marker is at index (0, 0, 1, 1) of both results.
\<close>

theorem spatial_correspondence_witness:
  "\<exists>ti ts.
       run_chain [''img'' \<mapsto> marker_volume (2, 2, 2) ''LPS'' [1, 0, 1] 100 0,
                  ''seg'' \<mapsto> marker_volume (2, 2, 2) ''LPS'' [1, 0, 1] 1 0]
         image_transforms no_random ''img'' = Inr ti
     \<and> run_chain [''img'' \<mapsto> marker_volume (2, 2, 2) ''LPS'' [1, 0, 1] 100 0,
                  ''seg'' \<mapsto> marker_volume (2, 2, 2) ''LPS'' [1, 0, 1] 1 0]
         seg_transforms no_random ''seg'' = Inr ts
     \<and> shape ti = [1, 2, 2, 2] \<and> shape ts = [1, 2, 2, 2]
     \<and> (elem ti [0, 0, 1, 1] = scale_intensity amin amax 0 1 True 100 \<longleftrightarrow> elem ts [0, 0, 1, 1] = 1)
     \<and> (elem ti [0, 1, 0, 1] = scale_intensity amin amax 0 1 True 100 \<longleftrightarrow> elem ts [0, 1, 0, 1] = 1)"
proof -
  let ?v = "marker_volume (2, 2, 2) ''LPS'' [1, 0, 1] 100 0"
  let ?s = "marker_volume (2, 2, 2) ''LPS'' [1, 0, 1] 1 0"
  let ?fs = "[''img'' \<mapsto> ?v, ''seg'' \<mapsto> ?s]"
  have "map_sum id shape (run_chain ?fs image_transforms no_random ''img'') = Inr [1, 2, 2, 2]"
    by (simp add: chain_eval)
  then obtain ti where ti: "run_chain ?fs image_transforms no_random ''img'' = Inr ti" "shape ti = [1, 2, 2, 2]"
    using isr_shape by blast
  have "map_sum id shape (run_chain ?fs seg_transforms no_random ''seg'') = Inr [1, 2, 2, 2]"
    by (simp add: chain_eval)
  then obtain ts where ts: "run_chain ?fs seg_transforms no_random ''seg'' = Inr ts" "shape ts = [1, 2, 2, 2]"
    using isr_shape by blast
  have h1: "?fs ''img'' = Some ?v" and h2: "?fs ''seg'' = Some ?s" by simp_all
  have h3: "dims ?v = dims ?s" and h4: "affine_codes ?v = affine_codes ?s"
    by (simp_all add: marker_volume_def)
  have sc: "scale_intensity amin amax 0 1 True 0 \<noteq> scale_intensity amin amax 0 1 True 100"
    by (simp add: scale_intensity_def amin_def amax_def clip_value_def)
  have m1: "\<forall>q. valid_index (dim_list ?v) q \<longrightarrow>
       (scale_intensity amin amax 0 1 True (voxel ?v q) = scale_intensity amin amax 0 1 True 100 \<longleftrightarrow> q = [1, 0, 1])"
    using sc by (simp add: marker_volume_def)
  have m2: "\<forall>q. valid_index (dim_list ?s) q \<longrightarrow> (voxel ?s q = 1 \<longleftrightarrow> q = [1, 0, 1])"
    by (simp add: marker_volume_def)
  from spatial_correspondence[OF h1 h2 h3 h4 ti(1) ts(1)] m1 m2
  have "\<forall>idx. valid_index (shape ti) idx \<longrightarrow>
          (elem ti idx = scale_intensity amin amax 0 1 True 100 \<longleftrightarrow> elem ts idx = 1)"
    by blast
  then have "(elem ti [0, 0, 1, 1] = scale_intensity amin amax 0 1 True 100 \<longleftrightarrow> elem ts [0, 0, 1, 1] = 1)
     \<and> (elem ti [0, 1, 0, 1] = scale_intensity amin amax 0 1 True 100 \<longleftrightarrow> elem ts [0, 1, 0, 1] = 1)"
    by (simp add: ti(2) valid_index_def)
  with ti ts show ?thesis by blast
qed

text \<open>
  Claim C1 as stated, for every pair: a 600 x 600 x 200 volume and a 512 x 512 x 160
  segmentation, marker at voxel (300, 300, 100) of both. The image is cropped from
  offset (44, 44, 20) and the segmentation from offset (0, 0, 0): the marker is at index
  (0, 256, 256, 80) of the image result and at (0, 300, 300, 100) of the mask result.
\<close>

theorem spatial_correspondence_counterexample:
  "map_sum id (\<lambda>t. elem t [0, 256, 256, 80])
     (run_chain [''img'' \<mapsto> marker_volume (600, 600, 200) ''RAS'' [300, 300, 100] 100 0,
                 ''seg'' \<mapsto> marker_volume (512, 512, 160) ''RAS'' [300, 300, 100] 1 0]
        image_transforms no_random ''img'') = Inr (scale_intensity amin amax 0 1 True 100)
 \<and> map_sum id (\<lambda>t. elem t [0, 256, 256, 80])
     (run_chain [''img'' \<mapsto> marker_volume (600, 600, 200) ''RAS'' [300, 300, 100] 100 0,
                 ''seg'' \<mapsto> marker_volume (512, 512, 160) ''RAS'' [300, 300, 100] 1 0]
        seg_transforms no_random ''seg'') = Inr 0
 \<and> map_sum id (\<lambda>t. elem t [0, 300, 300, 100])
     (run_chain [''img'' \<mapsto> marker_volume (600, 600, 200) ''RAS'' [300, 300, 100] 100 0,
                 ''seg'' \<mapsto> marker_volume (512, 512, 160) ''RAS'' [300, 300, 100] 1 0]
        seg_transforms no_random ''seg'') = Inr 1"
  by (simp add: chain_eval)

lemma chain_rng_free:
  "run_chain fs image_transforms r p = run_chain fs image_transforms r' p"
  "run_chain fs seg_transforms r p = run_chain fs seg_transforms r' p"
  by (simp_all add: image_chain seg_chain)

lemma crop_centre:
  assumes "shape (array m) = [c, X, Y, Z]"
  shows "\<exists>m'. rand_spatial_crop [512, 512, 160] False (m, r) = Inr (m', r)
           \<and> shape (array m') = [c, min X 512, min Y 512, min Z 160]
           \<and> (\<forall>k i j l. elem (array m') [k, i, j, l] =
                 elem (array m) [k, i + (X div 2 - 256), j + (Y div 2 - 256), l + (Z div 2 - 80)])"
proof -
  have s: "slice_len X (X div 2 - 256) 512 = min X 512" "slice_len Y (Y div 2 - 256) 512 = min Y 512"
    "slice_len Z (Z div 2 - 80) 160 = min Z 160"
    using slice_len_center[of X 512] slice_len_center[of Y 512] slice_len_center[of Z 160]
    by (simp_all add: center_start_def)
  show ?thesis
    by (simp add: rand_spatial_crop_def assms crop_def center_start_def s)
qed

lemma chain_shape_full:
  assumes v: "fs p = Some v" and d: "dims v = (nx, ny, nz)" and big: "512 \<le> nx" "512 \<le> ny" "512 \<le> nz"
    and t: "run_chain fs image_transforms r p = Inr t \<or> run_chain fs seg_transforms r p = Inr t"
  shows "shape t = [1, 512, 512, 160]"
proof -
  from t chain_source[of fs p v r, OF v] obtain g where
    g: "spatial_steps (coords (dims v) (affine_codes v)) = Inr g" and s: "shape t = shape g"
    by (cases "spatial_steps (coords (dims v) (affine_codes v))") (auto simp add: tmap_def)
  have sh: "shape (array (coords (dims v) (affine_codes v))) = [1, nx, ny, nz]"
    by (simp add: coords_def d)
  from spatial_steps_4d[OF sh g] obtain e0 e1 e2 where
    "shape g = [1, min e0 512, min e1 512, min e2 160]"
    "e0 \<in> {nx, ny, nz}" "e1 \<in> {nx, ny, nz}" "e2 \<in> {nx, ny, nz}"
    by blast
  with big s show ?thesis by auto
qed

text \<open>
  Claim C2, as amended. Neither chain reads the random state, so two runs on the same
  file agree. The crop keeps \<open>min d roi\<close> elements of every spatial axis of length
  \<open>d\<close>, starting at \<open>d div 2 - roi div 2\<close> (the window is centred, and an axis shorter
  than the window is kept whole); a file whose three dimensions are all at least 512
  gives exactly 1 x 512 x 512 x 160.
\<close>

theorem crop_is_centred_and_deterministic:
  "run_chain fs image_transforms r p = run_chain fs image_transforms r' p
 \<and> run_chain fs seg_transforms r p = run_chain fs seg_transforms r' p
 \<and> (\<forall>(m :: real meta_tensor) c X Y Z. shape (array m) = [c, X, Y, Z] \<longrightarrow>
       (\<exists>m'. rand_spatial_crop [512, 512, 160] False (m, r) = Inr (m', r)
           \<and> shape (array m') = [c, min X 512, min Y 512, min Z 160]
           \<and> (\<forall>k i j l. elem (array m') [k, i, j, l] =
                 elem (array m) [k, i + (X div 2 - 256), j + (Y div 2 - 256), l + (Z div 2 - 80)])))
 \<and> (\<forall>v nx ny nz t. fs p = Some v \<and> dims v = (nx, ny, nz) \<and> 512 \<le> nx \<and> 512 \<le> ny \<and> 512 \<le> nz
        \<and> (run_chain fs image_transforms r p = Inr t \<or> run_chain fs seg_transforms r p = Inr t)
        \<longrightarrow> shape t = [1, 512, 512, 160])"
  using chain_rng_free[of fs r p r'] crop_centre[of _ _ _ _ _ r] chain_shape_full[of fs p _ _ _ _ r]
  by blast

text \<open>
  A 600 x 512 x 100 tensor is cropped to 512 x 512 x 100 starting at (44, 0, 0), and a
  600 x 512 x 700 file gives 1 x 512 x 512 x 160.
\<close>

theorem crop_witness:
  "(\<exists>m'. rand_spatial_crop [512, 512, 160] False
            (\<lparr>array = \<lparr>shape = [1, 600, 512, 100], elem = (\<lambda>idx. real (sum_list idx))\<rparr>,
              axcodes_of = ''RAS''\<rparr>, no_random) = Inr (m', no_random)
        \<and> shape (array m') = [1, 512, 512, 100]
        \<and> elem (array m') [0, 0, 0, 0] = 44)
 \<and> map_sum id shape
      (run_chain [''v'' \<mapsto> marker_volume (600, 512, 700) ''LPS'' [0, 0, 0] 1 0] seg_transforms no_random ''v'')
    = Inr [1, 512, 512, 160]"
proof -
  let ?m = "\<lparr>array = \<lparr>shape = [1, 600, 512, 100], elem = (\<lambda>idx. real (sum_list idx))\<rparr>, axcodes_of = ''RAS''\<rparr>"
  let ?fs = "[''v'' \<mapsto> marker_volume (600, 512, 700) ''LPS'' [0, 0, 0] 1 0]"
  note T = crop_is_centred_and_deterministic[of ?fs no_random "''v''" no_random]
  have "shape (array ?m) = [1, 600, 512, 100]" by simp
  with T obtain m' where m': "rand_spatial_crop [512, 512, 160] False (?m, no_random) = Inr (m', no_random)"
     "shape (array m') = [1, min 600 512, min 512 512, min 100 160]"
     "\<forall>k i j l. elem (array m') [k, i, j, l] =
                 elem (array ?m) [k, i + (600 div 2 - 256), j + (512 div 2 - 256), l + (100 div 2 - 80)]"
    by blast
  from m'(3) have "elem (array m') [0, 0, 0, 0] = 44" by simp
  with m'(1,2) have A: "\<exists>m'. rand_spatial_crop [512, 512, 160] False (?m, no_random) = Inr (m', no_random)
        \<and> shape (array m') = [1, 512, 512, 100] \<and> elem (array m') [0, 0, 0, 0] = 44"
    by auto
  have "map_sum id shape (run_chain ?fs seg_transforms no_random ''v'') = Inr [1, 512, 512, 160]"
    by (simp add: chain_eval)
  with A show ?thesis by blast
qed

text \<open>
  Claim C2 as stated: a 100 x 100 x 50 volume comes out 1 x 100 x 100 x 50, not
  512 x 512 x 160; and the first element of the crop of a 600 x 600 x 200 volume is voxel
  (44, 44, 20), not a corner of the volume.
\<close>

theorem crop_counterexample:
  "map_sum id shape
     (run_chain [''v'' \<mapsto> marker_volume (100, 100, 50) ''RAS'' [0, 0, 0] 1 0] image_transforms no_random ''v'')
     = Inr [1, 100, 100, 50]
 \<and> map_sum id (\<lambda>t. (shape t, elem t [0, 0, 0, 0]))
     (run_chain [''w'' \<mapsto> marker_volume (600, 600, 200) ''RAS'' [44, 44, 20] 1 0] seg_transforms no_random ''w'')
     = Inr ([1, 512, 512, 160], 1)"
  by (simp add: chain_eval)

text \<open>
  Claim C6. The rescaling the image chain is built with maps an intensity \<open>x\<close> to
  \<open>(x + 22.18) / 472.18\<close> clamped to \<open>[0, 1]\<close>: 0 at or below -22.18, 1 at or above 450,
  linear in between. The transform is in the image chain and not in the mask chain:
  every element of a transformed image is the rescaled value of a voxel of the file, and
  every element of a transformed mask is a voxel of the file, unchanged.
\<close>

theorem intensity_rescaling:
  "scale_intensity amin amax 0 1 True x = max 0 (min 1 ((x - (-22.18)) / (450.0 - (-22.18))))
 \<and> (x \<le> -22.18 \<longrightarrow> scale_intensity amin amax 0 1 True x = 0)
 \<and> (450.0 \<le> x \<longrightarrow> scale_intensity amin amax 0 1 True x = 1)
 \<and> (-22.18 \<le> x \<and> x \<le> 450.0 \<longrightarrow>
       scale_intensity amin amax 0 1 True x = (x + 22.18) / 472.18
     \<and> 0 \<le> scale_intensity amin amax 0 1 True x \<and> scale_intensity amin amax 0 1 True x \<le> 1)
 \<and> ScaleIntensityRange amin amax 0 1 True \<in> set image_transforms
 \<and> (\<forall>a b c d e. ScaleIntensityRange a b c d e \<notin> set seg_transforms)
 \<and> (\<forall>fs p r v t idx. fs p = Some v \<and> run_chain fs image_transforms r p = Inr t \<and> valid_index (shape t) idx
       \<longrightarrow> (\<exists>q. valid_index (dim_list v) q \<and> elem t idx = scale_intensity amin amax 0 1 True (voxel v q)))
 \<and> (\<forall>fs p r v t idx. fs p = Some v \<and> run_chain fs seg_transforms r p = Inr t \<and> valid_index (shape t) idx
       \<longrightarrow> (\<exists>q. valid_index (dim_list v) q \<and> elem t idx = voxel v q))"
proof -
  have A: "scale_intensity amin amax 0 1 True x = max 0 (min 1 ((x - (-22.18)) / (450.0 - (-22.18))))"
    by (simp add: scale_intensity_def amin_def amax_def clip_value_def Let_def max_def min_def)
  have B: "x \<le> -22.18 \<longrightarrow> scale_intensity amin amax 0 1 True x = 0"
    unfolding A by (simp add: max_def min_def)
  have C: "450.0 \<le> x \<longrightarrow> scale_intensity amin amax 0 1 True x = 1"
    unfolding A by (simp add: max_def min_def)
  have D: "-22.18 \<le> x \<and> x \<le> 450.0 \<longrightarrow>
       scale_intensity amin amax 0 1 True x = (x + 22.18) / 472.18
     \<and> 0 \<le> scale_intensity amin amax 0 1 True x \<and> scale_intensity amin amax 0 1 True x \<le> 1"
    unfolding A by (simp add: max_def min_def)
  have E: "ScaleIntensityRange amin amax 0 1 True \<in> set image_transforms"
    by (simp add: image_transforms_def)
  have F: "\<forall>a b c d e. ScaleIntensityRange a b c d e \<notin> set seg_transforms"
    by (simp add: seg_transforms_def)
  have G: "\<forall>fs p r v t idx. fs p = Some v \<and> run_chain fs image_transforms r p = Inr t \<and> valid_index (shape t) idx
       \<longrightarrow> (\<exists>q. valid_index (dim_list v) q \<and> elem t idx = scale_intensity amin amax 0 1 True (voxel v q))"
  proof (intro allI impI, elim conjE)
    fix fs p r v t idx
    assume v: "fs p = Some v" and t: "run_chain fs image_transforms r p = Inr t" and i: "valid_index (shape t) idx"
    from t chain_source(2)[of fs p v r, OF v] obtain g where
      g: "spatial_steps (coords (dims v) (affine_codes v)) = Inr g"
      and tg: "t = tmap (\<lambda>q. scale_intensity amin amax 0 1 True (voxel v q)) g"
      by (cases "spatial_steps (coords (dims v) (affine_codes v))") auto
    from i have "valid_index (shape g) idx" by (simp add: tg tmap_def)
    from spatial_valid_dims[OF g this] show "\<exists>q. valid_index (dim_list v) q \<and> elem t idx = scale_intensity amin amax 0 1 True (voxel v q)"
      by (auto simp add: tg tmap_def)
  qed
  have H: "\<forall>fs p r v t idx. fs p = Some v \<and> run_chain fs seg_transforms r p = Inr t \<and> valid_index (shape t) idx
       \<longrightarrow> (\<exists>q. valid_index (dim_list v) q \<and> elem t idx = voxel v q)"
  proof (intro allI impI, elim conjE)
    fix fs p r v t idx
    assume v: "fs p = Some v" and t: "run_chain fs seg_transforms r p = Inr t" and i: "valid_index (shape t) idx"
    from t chain_source(1)[of fs p v r, OF v] obtain g where
      g: "spatial_steps (coords (dims v) (affine_codes v)) = Inr g"
      and tg: "t = tmap (voxel v) g"
      by (cases "spatial_steps (coords (dims v) (affine_codes v))") auto
    from i have "valid_index (shape g) idx" by (simp add: tg tmap_def)
    from spatial_valid_dims[OF g this] show "\<exists>q. valid_index (dim_list v) q \<and> elem t idx = voxel v q"
      by (auto simp add: tg tmap_def)
  qed
  from A B C D E F G H show ?thesis by blast
qed

text \<open>
  The intensities -100, 1000 and 100, and a 2 x 2 x 2 mask and image with one marked
  voxel: the mask keeps its label 2, the image value 1000 becomes 1.
\<close>

theorem intensity_rescaling_witness:
  "scale_intensity amin amax 0 1 True (-100) = 0
 \<and> scale_intensity amin amax 0 1 True 1000 = 1
 \<and> scale_intensity amin amax 0 1 True 100 = 122.18 / 472.18
 \<and> (\<exists>t q. run_chain [''seg'' \<mapsto> marker_volume (2, 2, 2) ''LPS'' [1, 0, 1] 2 0] seg_transforms no_random ''seg'' = Inr t
        \<and> valid_index [2, 2, 2] q \<and> elem t [0, 0, 1, 1] = voxel (marker_volume (2, 2, 2) ''LPS'' [1, 0, 1] 2 0) q
        \<and> elem t [0, 0, 1, 1] = 2)
 \<and> (\<exists>t q. run_chain [''img'' \<mapsto> marker_volume (2, 2, 2) ''LPS'' [1, 0, 1] 1000 0] image_transforms no_random ''img'' = Inr t
        \<and> valid_index [2, 2, 2] q
        \<and> elem t [0, 0, 1, 1] = scale_intensity amin amax 0 1 True (voxel (marker_volume (2, 2, 2) ''LPS'' [1, 0, 1] 1000 0) q)
        \<and> elem t [0, 0, 1, 1] = 1)"
proof -
  let ?s = "marker_volume (2, 2, 2) ''LPS'' [1, 0, 1] 2 0"
  let ?v = "marker_volume (2, 2, 2) ''LPS'' [1, 0, 1] 1000 0"
  have a: "scale_intensity amin amax 0 1 True (-100) = 0"
    using intensity_rescaling[of "-100"] by simp
  have b: "scale_intensity amin amax 0 1 True 1000 = 1"
    using intensity_rescaling[of 1000] by simp
  have c: "scale_intensity amin amax 0 1 True 100 = 122.18 / 472.18"
    using intensity_rescaling[of 100] by simp
  have "map_sum id (\<lambda>t. (shape t, elem t [0, 0, 1, 1])) (run_chain [''seg'' \<mapsto> ?s] seg_transforms no_random ''seg'') = Inr ([1, 2, 2, 2], 2)"
    by (simp add: chain_eval)
  then obtain ts where ts: "run_chain [''seg'' \<mapsto> ?s] seg_transforms no_random ''seg'' = Inr ts"
     "shape ts = [1, 2, 2, 2]" "elem ts [0, 0, 1, 1] = 2"
    by (cases "run_chain [''seg'' \<mapsto> ?s] seg_transforms no_random ''seg''") auto
  have vi: "valid_index [1, 2, 2, 2] [0, 0, 1, 1]" by (simp add: valid_index_def)
  have dl: "dim_list ?s = [2, 2, 2]" "dim_list ?v = [2, 2, 2]" by (simp_all add: dim_list_def marker_volume_def)
  from intensity_rescaling[of 0] ts(1) vi ts(2)
  have "\<exists>q. valid_index (dim_list ?s) q \<and> elem ts [0, 0, 1, 1] = voxel ?s q"
    by (metis fun_upd_same)
  with ts dl have d: "\<exists>t q. run_chain [''seg'' \<mapsto> ?s] seg_transforms no_random ''seg'' = Inr t
        \<and> valid_index [2, 2, 2] q \<and> elem t [0, 0, 1, 1] = voxel ?s q \<and> elem t [0, 0, 1, 1] = 2"
    by auto
  have "map_sum id (\<lambda>t. (shape t, elem t [0, 0, 1, 1])) (run_chain [''img'' \<mapsto> ?v] image_transforms no_random ''img'')
          = Inr ([1, 2, 2, 2], scale_intensity amin amax 0 1 True 1000)"
    by (simp add: chain_eval)
  then obtain ti where ti: "run_chain [''img'' \<mapsto> ?v] image_transforms no_random ''img'' = Inr ti"
     "shape ti = [1, 2, 2, 2]" "elem ti [0, 0, 1, 1] = 1"
    using b by (cases "run_chain [''img'' \<mapsto> ?v] image_transforms no_random ''img''") auto
  from intensity_rescaling[of 0] ti(1) vi ti(2)
  have "\<exists>q. valid_index (dim_list ?v) q \<and> elem ti [0, 0, 1, 1] = scale_intensity amin amax 0 1 True (voxel ?v q)"
    by (metis fun_upd_same)
  with ti dl have e: "\<exists>t q. run_chain [''img'' \<mapsto> ?v] image_transforms no_random ''img'' = Inr t
        \<and> valid_index [2, 2, 2] q
        \<and> elem t [0, 0, 1, 1] = scale_intensity amin amax 0 1 True (voxel ?v q) \<and> elem t [0, 0, 1, 1] = 1"
    by auto
  from a b c d e show ?thesis by blast
qed

section \<open>The evaluation step\<close>

lemma sigmoid_gt_half: "sigmoid v > 0.5 \<longleftrightarrow> v > 0"
proof -
  have p: "1 + exp (- v) > 0" by (simp add: add_pos_pos)
  have "sigmoid v > 0.5 \<longleftrightarrow> 1 + exp (- v) < 2"
    using p by (simp add: sigmoid_def field_simps)
  also have "\<dots> \<longleftrightarrow> v > 0" by simp
  finally show ?thesis .
qed

lemma argmax_list_props:
  "xs \<noteq> [] \<Longrightarrow> argmax_list xs < length xs
     \<and> (\<forall>j<length xs. xs ! j \<le> xs ! argmax_list xs)
     \<and> (\<forall>j<argmax_list xs. xs ! j < xs ! argmax_list xs)"
proof (induction xs rule: argmax_list.induct)
  case 1
  then show ?case by simp
next
  case (2 x)
  then show ?case by simp
next
  case (3 x y ys)
  let ?k = "argmax_list (y # ys)"
  from 3 have ih: "?k < length (y # ys)" "\<forall>j<length (y # ys). (y # ys) ! j \<le> (y # ys) ! ?k"
    "\<forall>j<?k. (y # ys) ! j < (y # ys) ! ?k" by auto
  show ?case
  proof (cases "(y # ys) ! ?k \<le> x")
    case True
    then have a: "argmax_list (x # y # ys) = 0" by (simp add: Let_def)
    have "\<forall>j<length (x # y # ys). (x # y # ys) ! j \<le> x"
    proof (intro allI impI)
      fix j assume "j < length (x # y # ys)"
      then show "(x # y # ys) ! j \<le> x"
        using ih(2) True by (cases j) (auto intro: order_trans)
    qed
    then show ?thesis using a by simp
  next
    case False
    then have a: "argmax_list (x # y # ys) = Suc ?k" by (simp add: Let_def)
    have b: "\<forall>j<length (x # y # ys). (x # y # ys) ! j \<le> (y # ys) ! ?k"
    proof (intro allI impI)
      fix j assume "j < length (x # y # ys)"
      then show "(x # y # ys) ! j \<le> (y # ys) ! ?k"
        using ih(2) False by (cases j) auto
    qed
    have c: "\<forall>j<Suc ?k. (x # y # ys) ! j < (y # ys) ! ?k"
    proof (intro allI impI)
      fix j assume "j < Suc ?k"
      then show "(x # y # ys) ! j < (y # ys) ! ?k"
        using ih(3) False by (cases j) auto
    qed
    show ?thesis using a b c ih(1) by simp
  qed
qed

lemma argmax_elem:
  assumes "shape y ! 1 \<noteq> 0" "argmax 1 y = Inr p"
  shows "shape p = remove_at 1 (shape y)"
    and "0 \<le> elem p (b # rest)" and "nat (elem p (b # rest)) < shape y ! 1"
    and "\<forall>c<shape y ! 1. elem y (b # c # rest) \<le> elem y (b # nat (elem p (b # rest)) # rest)"
    and "\<forall>c<nat (elem p (b # rest)). elem y (b # c # rest) < elem y (b # nat (elem p (b # rest)) # rest)"
proof -
  let ?xs = "map (\<lambda>c. elem y (insert_at 1 c (b # rest))) [0..<shape y ! 1]"
  from assms have p: "p = \<lparr>shape = remove_at 1 (shape y),
       elem = (\<lambda>idx. int (argmax_list (map (\<lambda>c. elem y (insert_at 1 c idx)) [0..<shape y ! 1])))\<rparr>"
    by (simp add: argmax_def)
  have e: "elem p (b # rest) = int (argmax_list ?xs)" by (simp add: p)
  have ne: "?xs \<noteq> []" using assms(1) by simp
  have ins: "\<And>c. insert_at (Suc 0) c (b # rest) = b # c # rest" by (simp add: insert_at_def)
  from argmax_list_props[OF ne] have
    k: "argmax_list ?xs < shape y ! 1"
    and le: "\<forall>j<shape y ! 1. ?xs ! j \<le> ?xs ! argmax_list ?xs"
    and lt: "\<forall>j<argmax_list ?xs. ?xs ! j < ?xs ! argmax_list ?xs"
    by auto
  show "shape p = remove_at 1 (shape y)" by (simp add: p)
  show "0 \<le> elem p (b # rest)" by (simp add: e)
  show "nat (elem p (b # rest)) < shape y ! 1" using k by (simp add: e)
  show "\<forall>c<shape y ! 1. elem y (b # c # rest) \<le> elem y (b # nat (elem p (b # rest)) # rest)"
    using le k by (simp add: e ins)
  show "\<forall>c<nat (elem p (b # rest)). elem y (b # c # rest) < elem y (b # nat (elem p (b # rest)) # rest)"
    using lt k by (simp add: e ins)
qed

text \<open>
  Claim C3. When both forward passes of the step return and the logits have a channel
  axis: with exactly one channel the prediction is the boolean tensor of the shape of the
  logits that is true exactly where the sigmoid of the logit is strictly above 0.5; with
  two or more channels it is the integer tensor, the channel axis removed, holding for
  every voxel the first channel whose softmax value is the largest. The masks are
  returned unchanged. Logits with a channel axis of length 0 take the second branch and
  the arg-max raises.
\<close>

theorem prediction_by_channel_count:
  assumes "fwd cfg (mdl\<lparr>training := False\<rparr>) images = Inr (outputs, m2)"
    and "fwd cfg m2 images = Inr (logits, m3)"
    and "2 \<le> length (shape logits)"
  shows "(shape logits ! 1 = 1 \<longrightarrow>
           (\<exists>p. evaluation_step fwd cfg mdl (images, masks) = Inr ((BoolT p, masks), m3)
               \<and> shape p = shape logits
               \<and> (\<forall>idx. elem p idx \<longleftrightarrow> sigmoid (elem logits idx) > 0.5)))
       \<and> (shape logits ! 1 \<noteq> 1 \<and> shape logits ! 1 \<noteq> 0 \<longrightarrow>
           (\<exists>p. evaluation_step fwd cfg mdl (images, masks) = Inr ((IntT p, masks), m3)
               \<and> shape p = remove_at 1 (shape logits)
               \<and> (\<forall>b rest. 0 \<le> elem p (b # rest) \<and> nat (elem p (b # rest)) < shape logits ! 1
                    \<and> (\<forall>c<shape logits ! 1. elem (softmax 1 logits) (b # c # rest)
                              \<le> elem (softmax 1 logits) (b # nat (elem p (b # rest)) # rest))
                    \<and> (\<forall>c<nat (elem p (b # rest)). elem (softmax 1 logits) (b # c # rest)
                              < elem (softmax 1 logits) (b # nat (elem p (b # rest)) # rest)))))
       \<and> (shape logits ! 1 = 0 \<longrightarrow> evaluation_step fwd cfg mdl (images, masks) = Inl IndexError)"
proof (intro conjI impI)
  assume c: "shape logits ! 1 = 1"
  have "evaluation_step fwd cfg mdl (images, masks)
          = Inr ((BoolT (tmap (\<lambda>v. sigmoid v > 0.5) logits), masks), m3)"
    using assms c by (simp add: evaluation_step_def)
  then show "\<exists>p. evaluation_step fwd cfg mdl (images, masks) = Inr ((BoolT p, masks), m3)
               \<and> shape p = shape logits
               \<and> (\<forall>idx. elem p idx \<longleftrightarrow> sigmoid (elem logits idx) > 0.5)"
    by (simp add: tmap_def)
next
  assume c: "shape logits ! 1 \<noteq> 1 \<and> shape logits ! 1 \<noteq> 0"
  then have s: "shape (softmax 1 logits) ! 1 \<noteq> 0" by (simp add: softmax_def)
  then obtain p where p: "argmax 1 (softmax 1 logits) = Inr p" by (simp add: argmax_def)
  have sh: "shape (softmax 1 logits) = shape logits" by (simp add: softmax_def)
  have "evaluation_step fwd cfg mdl (images, masks) = Inr ((IntT p, masks), m3)"
    using assms c p by (simp add: evaluation_step_def)
  moreover note argmax_elem[OF s p, unfolded sh]
  ultimately show "\<exists>p. evaluation_step fwd cfg mdl (images, masks) = Inr ((IntT p, masks), m3)
               \<and> shape p = remove_at 1 (shape logits)
               \<and> (\<forall>b rest. 0 \<le> elem p (b # rest) \<and> nat (elem p (b # rest)) < shape logits ! 1
                    \<and> (\<forall>c<shape logits ! 1. elem (softmax 1 logits) (b # c # rest)
                              \<le> elem (softmax 1 logits) (b # nat (elem p (b # rest)) # rest))
                    \<and> (\<forall>c<nat (elem p (b # rest)). elem (softmax 1 logits) (b # c # rest)
                              < elem (softmax 1 logits) (b # nat (elem p (b # rest)) # rest)))"
    by blast
next
  assume c: "shape logits ! 1 = 0"
  then have "argmax 1 (softmax 1 logits) = Inl IndexError" by (simp add: argmax_def softmax_def)
  then show "evaluation_step fwd cfg mdl (images, masks) = Inl IndexError"
    using assms c by (simp add: evaluation_step_def)
qed

text \<open>
  One-channel logits (-1, 2) give the prediction (False, True); two-channel logits (0, 1)
  at one voxel give the channel index 1.
\<close>

theorem prediction_by_channel_count_witness:
  "(\<exists>p m3. evaluation_step counting_forward unet_args \<lparr>training = True, state_dict = 0\<rparr>
              (row_tensor [1, 1, 2] [- 1, 2], row_tensor [1, 1, 2] [0, 1])
            = Inr ((BoolT p, row_tensor [1, 1, 2] [0, 1]), m3)
          \<and> shape p = [1, 1, 2] \<and> \<not> elem p [0, 0, 0] \<and> elem p [0, 0, 1])
 \<and> (\<exists>p m3. evaluation_step counting_forward unet_args \<lparr>training = True, state_dict = 0\<rparr>
              (column_tensor [1, 2, 1] [0, 1], row_tensor [1, 1, 1] [1])
            = Inr ((IntT p, row_tensor [1, 1, 1] [1]), m3)
          \<and> shape p = [1, 1] \<and> elem p [0, 0] = 1)"
proof (intro conjI)
  let ?m = "\<lparr>training = True, state_dict = 0::nat\<rparr>"
  let ?x = "row_tensor [1, 1, 2] [- 1, 2::real]"
  let ?g = "row_tensor [1, 1, 2] [0, 1::real]"
  have 1: "counting_forward unet_args (?m\<lparr>training := False\<rparr>) ?x = Inr (?x, \<lparr>training = False, state_dict = 1\<rparr>)"
    by (simp add: counting_forward_def)
  have 2: "counting_forward unet_args \<lparr>training = False, state_dict = 1\<rparr> ?x = Inr (?x, \<lparr>training = False, state_dict = 2\<rparr>)"
    by (simp add: counting_forward_def)
  have 3: "2 \<le> length (shape ?x)" by (simp add: row_tensor_def)
  have 4: "shape ?x ! 1 = 1" by (simp add: row_tensor_def)
  from prediction_by_channel_count[where fwd = counting_forward and cfg = unet_args and mdl = ?m and images = ?x and masks = ?g, OF 1 2 3] 4
  obtain p where p: "evaluation_step counting_forward unet_args ?m (?x, ?g)
        = Inr ((BoolT p, ?g), \<lparr>training = False, state_dict = 2\<rparr>)"
      "shape p = shape ?x" "\<forall>idx. elem p idx \<longleftrightarrow> sigmoid (elem ?x idx) > 0.5"
    by blast
  have q: "\<forall>idx. elem p idx \<longleftrightarrow> elem ?x idx > 0"
    using p(3) unfolding sigmoid_gt_half .
  have "\<not> elem p [0, 0, 0]" "elem p [0, 0, 1]"
    by (simp_all add: q row_tensor_def)
  then show "\<exists>p m3. evaluation_step counting_forward unet_args ?m (?x, ?g) = Inr ((BoolT p, ?g), m3)
          \<and> shape p = [1, 1, 2] \<and> \<not> elem p [0, 0, 0] \<and> elem p [0, 0, 1]"
    using p(1,2) by (auto simp add: row_tensor_def)
next
  let ?m = "\<lparr>training = True, state_dict = 0::nat\<rparr>"
  let ?x = "column_tensor [1, 2, 1] [0, 1::real]"
  let ?g = "row_tensor [1, 1, 1] [1::real]"
  have 1: "counting_forward unet_args (?m\<lparr>training := False\<rparr>) ?x = Inr (?x, \<lparr>training = False, state_dict = 1\<rparr>)"
    by (simp add: counting_forward_def)
  have 2: "counting_forward unet_args \<lparr>training = False, state_dict = 1\<rparr> ?x = Inr (?x, \<lparr>training = False, state_dict = 2\<rparr>)"
    by (simp add: counting_forward_def)
  have 3: "2 \<le> length (shape ?x)" by (simp add: column_tensor_def)
  have 4: "shape ?x ! 1 = 2" by (simp add: column_tensor_def)
  from prediction_by_channel_count[where fwd = counting_forward and cfg = unet_args and mdl = ?m and images = ?x and masks = ?g, OF 1 2 3] 4
  obtain p where p: "evaluation_step counting_forward unet_args ?m (?x, ?g)
        = Inr ((IntT p, ?g), \<lparr>training = False, state_dict = 2\<rparr>)"
      "shape p = remove_at 1 (shape ?x)"
      "\<forall>b rest. 0 \<le> elem p (b # rest) \<and> nat (elem p (b # rest)) < shape ?x ! 1
                    \<and> (\<forall>c<shape ?x ! 1. elem (softmax 1 ?x) (b # c # rest)
                              \<le> elem (softmax 1 ?x) (b # nat (elem p (b # rest)) # rest))"
    by auto
  from p(3) have a: "0 \<le> elem p [0, 0]" "nat (elem p [0, 0]) < 2"
     and b: "\<forall>c<2. elem (softmax 1 ?x) [0, c, 0] \<le> elem (softmax 1 ?x) [0, nat (elem p [0, 0]), 0]"
    using 4 by auto
  have lt: "elem (softmax 1 ?x) [0, 0, 0] < elem (softmax 1 ?x) [0, 1, 0]"
  proof -
    have u: "[0..<2] = [0, Suc 0]" by (simp add: upt_conv_Cons numeral_2_eq_2)
    have a: "(1::real) < exp 1" by simp
    have b: "0 < 1 + exp (1::real)" by (simp add: add_pos_pos)
    have "1 / (1 + exp (1::real)) < exp 1 / (1 + exp 1)"
      using a b by (rule divide_strict_right_mono)
    then show ?thesis by (simp add: softmax_def column_tensor_def u)
  qed
  have "nat (elem p [0, 0]) \<noteq> 0"
  proof
    assume "nat (elem p [0, 0]) = 0"
    with b have "elem (softmax 1 ?x) [0, 1, 0] \<le> elem (softmax 1 ?x) [0, 0, 0]" by simp
    with lt show False by simp
  qed
  with a have "elem p [0, 0] = 1" by linarith
  then show "\<exists>p m3. evaluation_step counting_forward unet_args ?m (?x, ?g) = Inr ((IntT p, ?g), m3)
          \<and> shape p = [1, 1] \<and> elem p [0, 0] = 1"
    using p(1,2) by (auto simp add: column_tensor_def remove_at_def)
qed

text \<open>
  Claim C10. The result of the step does not depend on what the first forward pass
  returns as output: two networks that leave the module in the same state after the first
  pass and agree on the second pass give the same result. When a forward pass in
  evaluation mode returns the same output if repeated on the module it leaves, the step
  and its variant with a single forward pass return the same (predictions, masks) pair,
  or raise the same error.
\<close>

theorem single_pass_equivalent:
  "(fwd cfg (mdl\<lparr>training := False\<rparr>) (fst batch) = Inr (o1, m2)
      \<and> fwd' cfg (mdl\<lparr>training := False\<rparr>) (fst batch) = Inr (o2, m2)
      \<and> fwd cfg m2 (fst batch) = fwd' cfg m2 (fst batch)
      \<longrightarrow> evaluation_step fwd cfg mdl batch = evaluation_step fwd' cfg mdl batch)
 \<and> ((\<forall>m x y m'. \<not> training m \<and> fwd cfg m x = Inr (y, m') \<longrightarrow> (\<exists>m''. fwd cfg m' x = Inr (y, m'')))
      \<longrightarrow> map_sum id fst (evaluation_step fwd cfg mdl batch)
            = map_sum id fst (evaluation_step_once fwd cfg mdl batch))"
proof (intro conjI impI)
  assume "fwd cfg (mdl\<lparr>training := False\<rparr>) (fst batch) = Inr (o1, m2)
      \<and> fwd' cfg (mdl\<lparr>training := False\<rparr>) (fst batch) = Inr (o2, m2)
      \<and> fwd cfg m2 (fst batch) = fwd' cfg m2 (fst batch)"
  then show "evaluation_step fwd cfg mdl batch = evaluation_step fwd' cfg mdl batch"
    by (cases batch) (simp add: evaluation_step_def)
next
  assume H: "\<forall>m x y m'. \<not> training m \<and> fwd cfg m x = Inr (y, m') \<longrightarrow> (\<exists>m''. fwd cfg m' x = Inr (y, m''))"
  obtain images masks where b: "batch = (images, masks)" by (cases batch) auto
  show "map_sum id fst (evaluation_step fwd cfg mdl batch)
            = map_sum id fst (evaluation_step_once fwd cfg mdl batch)"
  proof (cases "fwd cfg (mdl\<lparr>training := False\<rparr>) images")
    case (Inl e)
    then show ?thesis by (simp add: b evaluation_step_def evaluation_step_once_def)
  next
    case (Inr r)
    obtain y m' where r: "r = (y, m')" by (cases r) auto
    have "\<not> training (mdl\<lparr>training := False\<rparr>)" by simp
    with H Inr r obtain m'' where s: "fwd cfg m' images = Inr (y, m'')" by blast
    show ?thesis
      using Inr r s
      by (simp add: b evaluation_step_def evaluation_step_once_def split: sum.split)
  qed
qed

text \<open>
  The call-counting network: the step and its single-pass variant return the same pair,
  and differ in the module they leave (two calls counted against one).
\<close>

theorem single_pass_equivalent_witness:
  "map_sum id fst (evaluation_step counting_forward unet_args \<lparr>training = True, state_dict = 0\<rparr>
         (row_tensor [1, 1, 2] [- 1, 2], row_tensor [1, 1, 2] [0, 1]))
   = map_sum id fst (evaluation_step_once counting_forward unet_args \<lparr>training = True, state_dict = 0\<rparr>
         (row_tensor [1, 1, 2] [- 1, 2], row_tensor [1, 1, 2] [0, 1]))
   \<and> evaluation_step counting_forward unet_args \<lparr>training = True, state_dict = 0\<rparr>
         (row_tensor [1, 1, 2] [- 1, 2], row_tensor [1, 1, 2] [0, 1])
   \<noteq> evaluation_step_once counting_forward unet_args \<lparr>training = True, state_dict = 0\<rparr>
         (row_tensor [1, 1, 2] [- 1, 2], row_tensor [1, 1, 2] [0, 1])"
proof
  have H: "\<forall>m x y m'. \<not> training m \<and> counting_forward unet_args m x = Inr (y, m')
             \<longrightarrow> (\<exists>m''. counting_forward unet_args m' x = Inr (y, m''))"
    by (simp add: counting_forward_def)
  from single_pass_equivalent[of counting_forward unet_args "\<lparr>training = True, state_dict = 0\<rparr>"
        "(row_tensor [1, 1, 2] [- 1, 2], row_tensor [1, 1, 2] [0, 1])"] H
  show "map_sum id fst (evaluation_step counting_forward unet_args \<lparr>training = True, state_dict = 0\<rparr>
         (row_tensor [1, 1, 2] [- 1, 2], row_tensor [1, 1, 2] [0, 1]))
   = map_sum id fst (evaluation_step_once counting_forward unet_args \<lparr>training = True, state_dict = 0\<rparr>
         (row_tensor [1, 1, 2] [- 1, 2], row_tensor [1, 1, 2] [0, 1]))"
    by blast
  show "evaluation_step counting_forward unet_args \<lparr>training = True, state_dict = 0\<rparr>
         (row_tensor [1, 1, 2] [- 1, 2], row_tensor [1, 1, 2] [0, 1])
   \<noteq> evaluation_step_once counting_forward unet_args \<lparr>training = True, state_dict = 0\<rparr>
         (row_tensor [1, 1, 2] [- 1, 2], row_tensor [1, 1, 2] [0, 1])"
    by (simp add: evaluation_step_def evaluation_step_once_def counting_forward_def row_tensor_def)
qed

section \<open>The evaluation loop\<close>

lemma select_Inr:
  "select k t = Inr x \<Longrightarrow> (\<exists>n sh. shape t = n # sh \<and> k < n \<and> x = \<lparr>shape = sh, elem = (\<lambda>idx. elem t (k # idx))\<rparr>)"
  by (auto simp add: select_def split: list.splits if_splits)

lemma select_collate1: "select k (collate1 t) = (if k = 0 then Inr t else Inl IndexError)"
  by (simp add: select_def collate1_def)

lemma evaluation_step_masks:
  "evaluation_step fwd cfg m batch = Inr ((pr, g), m') \<Longrightarrow> g = snd batch"
  by (cases batch) (auto simp add: evaluation_step_def split: sum.splits if_splits)

lemma save_loop_append:
  "save_loop p g ks store = Inr store' \<Longrightarrow>
     \<exists>recs. store' = store @ recs \<and> length recs = length ks
       \<and> (\<forall>j<length ks. select (ks ! j) p = Inr (fst (recs ! j)) \<and> select (ks ! j) g = Inr (snd (recs ! j)))"
proof (induction ks arbitrary: store)
  case Nil
  then show ?case by simp
next
  case (Cons k ks)
  from Cons.prems obtain a b where a: "select k p = Inr a" and b: "select k g = Inr b"
    and r: "save_loop p g ks (store @ [(a, b)]) = Inr store'"
    by (auto split: sum.splits)
  from Cons.IH[OF r] obtain recs where recs: "store' = (store @ [(a, b)]) @ recs" "length recs = length ks"
    "\<forall>j<length ks. select (ks ! j) p = Inr (fst (recs ! j)) \<and> select (ks ! j) g = Inr (snd (recs ! j))"
    by blast
  have "\<forall>j<length (k # ks). select ((k # ks) ! j) p = Inr (fst (((a, b) # recs) ! j))
          \<and> select ((k # ks) ! j) g = Inr (snd (((a, b) # recs) ! j))"
  proof (intro allI impI)
    fix j assume "j < length (k # ks)"
    then show "select ((k # ks) ! j) p = Inr (fst (((a, b) # recs) ! j))
          \<and> select ((k # ks) ! j) g = Inr (snd (((a, b) # recs) ! j))"
      using a b recs(3) by (cases j) auto
  qed
  then show ?case using recs(1,2) by (intro exI[of _ "(a, b) # recs"]) simp
qed

lemma dice_compute_shape:
  "dice_compute pr y = Inr rows \<Longrightarrow>
     shape (pred_int pr) = shape y \<and> 3 \<le> length (shape y) \<and> length rows = shape y ! 0"
  by (auto simp add: dice_compute_def Let_def split: if_splits)

lemma iteration_effect:
  assumes "iteration fwd cfg R P st (collate1 img, collate1 seg) = Inr st'"
  shows "\<exists>pr m' p rows.
           evaluation_step fwd cfg (model st) (collate1 img, collate1 seg) = Inr ((pr, collate1 seg), m')
         \<and> select 0 (pred_int pr) = Inr p
         \<and> dice_compute pr (collate1 seg) = Inr rows \<and> length rows = 1
         \<and> store_predictions st' = store_predictions st @ [(p, seg)]
         \<and> mean_dice_metric st' = mean_dice_metric st @ rows
         \<and> stdout st' = stdout st \<and> metrics st' = metrics st \<and> model st' = m'"
proof -
  from assms obtain out m' where es: "evaluation_step fwd cfg (model st) (collate1 img, collate1 seg) = Inr (out, m')"
    by (auto simp add: iteration_def split: sum.splits)
  obtain pr g where out: "out = (pr, g)" by (cases out) auto
  from es out evaluation_step_masks have g: "g = collate1 seg" by fastforce
  from assms es obtain st1 where u: "update_dice_metric (st\<lparr>model := m'\<rparr>) out = Inr st1"
    by (auto simp add: iteration_def split: sum.splits)
  from u out g obtain rows where rows: "dice_compute pr (collate1 seg) = Inr rows"
    and st1: "st1 = st\<lparr>model := m', mean_dice_metric := mean_dice_metric st @ rows\<rparr>"
    by (auto simp add: update_dice_metric_def split: sum.splits)
  from assms es u obtain ra pa where
    sv: "save_segmentation_masks (st1\<lparr>recall_acc := ra, precision_acc := pa\<rparr>) out = Inr st'"
    by (auto simp add: iteration_def split: sum.splits)
  from dice_compute_shape[OF rows] have sh: "shape (pred_int pr) = 1 # shape seg" "length rows = 1"
    by (simp_all add: collate1_def)
  from sv out g sh obtain store where
    sl: "save_loop (pred_int pr) (collate1 seg) [0..<1] (store_predictions st1) = Inr store"
    and st': "st' = st1\<lparr>recall_acc := ra, precision_acc := pa, store_predictions := store\<rparr>"
    by (auto simp add: save_segmentation_masks_def split: sum.splits)
  from sl obtain p where p: "select 0 (pred_int pr) = Inr p" and store: "store = store_predictions st1 @ [(p, seg)]"
    by (auto simp add: select_collate1 split: sum.splits)
  show ?thesis
    using es out g p rows sh(2) store st' st1 by simp
qed

lemma iterations_effect:
  "iterations fwd cfg R P ds ks st = Inr st' \<Longrightarrow>
     stdout st' = stdout st \<and> metrics st' = metrics st
   \<and> length (mean_dice_metric st') = length (mean_dice_metric st) + length ks
   \<and> (\<exists>recs. store_predictions st' = store_predictions st @ recs \<and> length recs = length ks
        \<and> (\<forall>j<length ks. \<exists>img seg m pr m'.
               ds (ks ! j) = Inr (img, seg) \<and> snd (recs ! j) = seg
             \<and> evaluation_step fwd cfg m (collate1 img, collate1 seg) = Inr ((pr, collate1 seg), m')
             \<and> select 0 (pred_int pr) = Inr (fst (recs ! j))))"
proof (induction ks arbitrary: st)
  case Nil
  then show ?case by simp
next
  case (Cons k ks)
  from Cons.prems obtain item where item: "ds k = Inr item"
    by (auto split: sum.splits)
  obtain img seg where itm: "item = (img, seg)" by (cases item) auto
  from Cons.prems item itm obtain st1 where
    it: "iteration fwd cfg R P st (collate1 img, collate1 seg) = Inr st1"
    and rest: "iterations fwd cfg R P ds ks st1 = Inr st'"
    by (auto split: sum.splits)
  from iteration_effect[OF it] obtain pr m' p rows where
    e: "evaluation_step fwd cfg (model st) (collate1 img, collate1 seg) = Inr ((pr, collate1 seg), m')"
    "select 0 (pred_int pr) = Inr p" "length rows = 1"
    "store_predictions st1 = store_predictions st @ [(p, seg)]"
    "mean_dice_metric st1 = mean_dice_metric st @ rows"
    "stdout st1 = stdout st" "metrics st1 = metrics st"
    by blast
  from Cons.IH[OF rest] obtain recs where
    r: "stdout st' = stdout st1" "metrics st' = metrics st1"
    "length (mean_dice_metric st') = length (mean_dice_metric st1) + length ks"
    "store_predictions st' = store_predictions st1 @ recs" "length recs = length ks"
    "\<forall>j<length ks. \<exists>img seg m pr m'.
               ds (ks ! j) = Inr (img, seg) \<and> snd (recs ! j) = seg
             \<and> evaluation_step fwd cfg m (collate1 img, collate1 seg) = Inr ((pr, collate1 seg), m')
             \<and> select 0 (pred_int pr) = Inr (fst (recs ! j))"
    by blast
  have "\<forall>j<length (k # ks). \<exists>im sg m pr m'.
               ds ((k # ks) ! j) = Inr (im, sg) \<and> snd (((p, seg) # recs) ! j) = sg
             \<and> evaluation_step fwd cfg m (collate1 im, collate1 sg) = Inr ((pr, collate1 sg), m')
             \<and> select 0 (pred_int pr) = Inr (fst (((p, seg) # recs) ! j))"
  proof (intro allI impI)
    fix j assume j: "j < length (k # ks)"
    show "\<exists>im sg m pr m'.
               ds ((k # ks) ! j) = Inr (im, sg) \<and> snd (((p, seg) # recs) ! j) = sg
             \<and> evaluation_step fwd cfg m (collate1 im, collate1 sg) = Inr ((pr, collate1 sg), m')
             \<and> select 0 (pred_int pr) = Inr (fst (((p, seg) # recs) ! j))"
    proof (cases j)
      case 0
      then show ?thesis using item itm e(1,2) by auto
    next
      case (Suc i)
      then show ?thesis using r(6) j by simp
    qed
  qed
  then have A: "\<exists>recs'. store_predictions st' = store_predictions st @ recs' \<and> length recs' = length (k # ks)
        \<and> (\<forall>j<length (k # ks). \<exists>img seg m pr m'.
               ds ((k # ks) ! j) = Inr (img, seg) \<and> snd (recs' ! j) = seg
             \<and> evaluation_step fwd cfg m (collate1 img, collate1 seg) = Inr ((pr, collate1 seg), m')
             \<and> select 0 (pred_int pr) = Inr (fst (recs' ! j)))"
    apply (intro exI[of _ "(p, seg) # recs"] conjI)
    using e(4) r(4) apply simp
    using r(5) apply simp
    apply assumption
    done
  have B: "stdout st' = stdout st" "metrics st' = metrics st"
    "length (mean_dice_metric st') = length (mean_dice_metric st) + length (k # ks)"
    using e r by simp_all
  show ?case using A B by blast
qed

section \<open>The overlap score\<close>

lemma set_indices: "set (indices sh) = {idx. valid_index sh idx}"
proof (induction sh)
  case Nil
  then show ?case by (auto simp add: valid_index_def)
next
  case (Cons n ns)
  show ?case
  proof (rule set_eqI)
    fix idx
    show "idx \<in> set (indices (n # ns)) \<longleftrightarrow> idx \<in> {idx. valid_index (n # ns) idx}"
      using Cons by (cases idx) (auto simp add: valid_index_def)
  qed
qed

lemma count_where_pos: "0 < count_where P sh \<longleftrightarrow> (\<exists>idx. valid_index sh idx \<and> P idx)"
proof -
  have "0 < count_where P sh \<longleftrightarrow> filter P (indices sh) \<noteq> []"
    by (simp add: count_where_def)
  also have "\<dots> \<longleftrightarrow> (\<exists>idx\<in>set (indices sh). P idx)"
    by (simp add: filter_empty_conv)
  also have "\<dots> \<longleftrightarrow> (\<exists>idx. valid_index sh idx \<and> P idx)"
    by (auto simp add: set_indices)
  finally show ?thesis .
qed

lemma count_where_cong:
  "(\<forall>idx. valid_index sh idx \<longrightarrow> P idx = Q idx) \<Longrightarrow> count_where P sh = count_where Q sh"
proof -
  assume "\<forall>idx. valid_index sh idx \<longrightarrow> P idx = Q idx"
  then have "filter P (indices sh) = filter Q (indices sh)"
    by (intro filter_cong) (auto simp add: set_indices)
  then show ?thesis by (simp add: count_where_def)
qed

lemma compute_channel_same:
  assumes "\<forall>idx. valid_index sh idx \<longrightarrow> P idx = G idx"
  shows "compute_channel P G sh = (if \<exists>idx. valid_index sh idx \<and> G idx then Some 1 else None)"
proof -
  have a: "count_where P sh = count_where G sh" using assms by (rule count_where_cong)
  have b: "count_where (\<lambda>i. P i \<and> G i) sh = count_where G sh"
    using assms by (intro count_where_cong) auto
  show ?thesis
  proof (cases "\<exists>idx. valid_index sh idx \<and> G idx")
    case True
    then have "0 < count_where G sh" by (simp add: count_where_pos)
    then show ?thesis using True by (simp add: compute_channel_def a b)
  next
    case False
    then have "\<not> 0 < count_where G sh" by (simp add: count_where_pos)
    then show ?thesis using False by (simp add: compute_channel_def)
  qed
qed

lemma compute_channel_disjoint:
  assumes "\<forall>idx. valid_index sh idx \<longrightarrow> \<not> (P idx \<and> G idx)"
  shows "compute_channel P G sh = (if \<exists>idx. valid_index sh idx \<and> G idx then Some 0 else None)"
proof -
  have "\<not> 0 < count_where (\<lambda>i. P i \<and> G i) sh"
    using assms by (simp only: count_where_pos) blast
  then have b: "count_where (\<lambda>i. P i \<and> G i) sh = 0" by simp
  show ?thesis
  proof (cases "\<exists>idx. valid_index sh idx \<and> G idx")
    case True
    then have "0 < count_where G sh" by (simp add: count_where_pos)
    then show ?thesis using True by (simp add: compute_channel_def b)
  next
    case False
    then have "\<not> 0 < count_where G sh" by (simp add: count_where_pos)
    then show ?thesis using False by (simp add: compute_channel_def)
  qed
qed

lemma nanmean_single: "nanmean [x] = x"
  by (cases x) (simp_all add: nanmean_def List.map_filter_simps)

lemma map_filter_const:
  "set xs \<subseteq> {None, Some c} \<Longrightarrow>
     \<exists>k. List.map_filter id xs = replicate k c \<and> (0 < k \<longleftrightarrow> Some c \<in> set xs)"
proof (induction xs)
  case Nil
  then show ?case by (simp add: List.map_filter_simps)
next
  case (Cons x xs)
  from Cons.prems have "set xs \<subseteq> {None, Some c}" by simp
  from Cons.IH[OF this] obtain k where k: "List.map_filter id xs = replicate k c" "0 < k \<longleftrightarrow> Some c \<in> set xs"
    by blast
  from Cons.prems have "x = None \<or> x = Some c" by auto
  then show ?case
  proof
    assume "x = None"
    then show ?thesis using k by (intro exI[of _ k]) (simp add: List.map_filter_simps id_def)
  next
    assume "x = Some c"
    then show ?thesis using k by (intro exI[of _ "Suc k"]) (simp add: List.map_filter_simps id_def)
  qed
qed

lemma nanmean_const:
  assumes "set xs \<subseteq> {None, Some c}"
  shows "nanmean xs = (if Some c \<in> set xs then Some c else None)"
proof -
  from map_filter_const[OF assms] obtain k where
    k: "List.map_filter id xs = replicate k c" "0 < k \<longleftrightarrow> Some c \<in> set xs" by blast
  show ?thesis
  proof (cases "Some c \<in> set xs")
    case True
    then have "0 < k" using k by simp
    then show ?thesis using True k(1) by (simp add: nanmean_def sum_list_replicate)
  next
    case False
    then have "k = 0" using k by simp
    then show ?thesis using False k(1) by (simp add: nanmean_def)
  qed
qed

lemma dice_compute_rows:
  assumes "dice_compute p y = Inr rows"
  shows "\<exists>n sh. shape y = n # 1 # sh \<and> shape (pred_int p) = shape y
          \<and> map nanmean rows
              = map (\<lambda>b. compute_channel (\<lambda>i. elem (pred_int p) (b # 0 # i) = 1)
                                            (\<lambda>i. elem y (b # 0 # i) = 1) sh) [0..<n]"
proof -
  from assms have s: "shape (pred_int p) = shape y" "3 \<le> length (shape y)" "shape y ! 1 = 1"
    by (auto simp add: dice_compute_def Let_def split: if_splits)
  from s(2,3) obtain n sh where sh: "shape y = n # 1 # sh"
    by (cases "shape y"; simp; rename_tac a as; case_tac as; simp)
  from s(2) sh have ne: "sh \<noteq> []" by auto
  from assms s sh ne have "rows = map (\<lambda>b. [compute_channel (\<lambda>i. elem (pred_int p) (b # 0 # i) = 1)
                                            (\<lambda>i. elem y (b # 0 # i) = 1) sh]) [0..<n]"
    by (simp add: dice_compute_def Let_def)
  then have "map nanmean rows = map (\<lambda>b. compute_channel (\<lambda>i. elem (pred_int p) (b # 0 # i) = 1)
                                            (\<lambda>i. elem y (b # 0 # i) = 1) sh) [0..<n]"
    by (simp add: nanmean_single comp_def)
  with sh s(1) show ?thesis by blast
qed

lemma valid_index_batch:
  "valid_index (n # Suc 0 # sh) idx \<longleftrightarrow> (\<exists>b i. idx = b # 0 # i \<and> b < n \<and> valid_index sh i)"
  by (auto simp add: valid_index_def list_all2_Cons2)

text \<open>
  Claim C7, as amended. For a prediction and a ground truth that the metric accepts, the
  aggregate of the scores of the pair is 1 when the voxels predicted 1 are exactly the
  voxels labelled 1 (as when the prediction equals the ground truth) and at least one
  voxel is labelled 1; it is 0 when no voxel is both predicted 1 and labelled 1; and it
  is 0 whenever no voxel is labelled 1, whatever the prediction.
\<close>

theorem dice_extremes:
  assumes "dice_compute p y = Inr rows"
  shows "((\<forall>idx. valid_index (shape y) idx \<longrightarrow> (elem (pred_int p) idx = 1 \<longleftrightarrow> elem y idx = 1))
           \<and> (\<exists>idx. valid_index (shape y) idx \<and> elem y idx = 1)
          \<longrightarrow> dice_aggregate rows = Inr 1)
       \<and> ((\<forall>idx. valid_index (shape y) idx \<longrightarrow> \<not> (elem (pred_int p) idx = 1 \<and> elem y idx = 1))
           \<and> shape y ! 0 \<noteq> 0
          \<longrightarrow> dice_aggregate rows = Inr 0)
       \<and> ((\<forall>idx. valid_index (shape y) idx \<longrightarrow> elem y idx \<noteq> 1) \<and> shape y ! 0 \<noteq> 0
          \<longrightarrow> dice_aggregate rows = Inr 0)"
proof -
  from dice_compute_rows[OF assms] obtain n sh where
    sh: "shape y = n # 1 # sh"
    and m: "map nanmean rows
              = map (\<lambda>b. compute_channel (\<lambda>i. elem (pred_int p) (b # 0 # i) = 1)
                                            (\<lambda>i. elem y (b # 0 # i) = 1) sh) [0..<n]"
    by blast
  from m have len: "length rows = n" using length_map[of nanmean rows] by simp
  have same: "dice_aggregate rows = Inr 1"
    if H: "\<forall>idx. valid_index (shape y) idx \<longrightarrow> (elem (pred_int p) idx = 1 \<longleftrightarrow> elem y idx = 1)"
    and E: "\<exists>idx. valid_index (shape y) idx \<and> elem y idx = 1"
  proof -
    have c: "\<And>b. b < n \<Longrightarrow> compute_channel (\<lambda>i. elem (pred_int p) (b # 0 # i) = 1)
                                            (\<lambda>i. elem y (b # 0 # i) = 1) sh
               = (if \<exists>i. valid_index sh i \<and> elem y (b # 0 # i) = 1 then Some 1 else None)"
      using H by (intro compute_channel_same) (auto simp add: sh valid_index_batch)
    have sub: "set (map nanmean rows) \<subseteq> {None, Some 1}"
      unfolding m using c by auto
    from E obtain b i where bi: "b < n" "valid_index sh i" "elem y (b # 0 # i) = 1"
      by (auto simp add: sh valid_index_batch)
    then have "compute_channel (\<lambda>i. elem (pred_int p) (b # 0 # i) = 1)
                                            (\<lambda>i. elem y (b # 0 # i) = 1) sh = Some 1"
      using c[of b] by auto
    then have "Some 1 \<in> set (map nanmean rows)"
      unfolding m using bi(1) by (auto simp add: image_iff intro!: bexI[of _ b])
    then have "nanmean (map nanmean rows) = Some 1"
      using nanmean_const[OF sub] by simp
    moreover have "rows \<noteq> []" using len bi(1) by auto
    ultimately show ?thesis by (simp add: dice_aggregate_def)
  qed
  have disj: "dice_aggregate rows = Inr 0"
    if H: "\<forall>idx. valid_index (shape y) idx \<longrightarrow> \<not> (elem (pred_int p) idx = 1 \<and> elem y idx = 1)"
    and N: "shape y ! 0 \<noteq> 0"
  proof -
    have c: "\<And>b. b < n \<Longrightarrow> compute_channel (\<lambda>i. elem (pred_int p) (b # 0 # i) = 1)
                                            (\<lambda>i. elem y (b # 0 # i) = 1) sh
               = (if \<exists>i. valid_index sh i \<and> elem y (b # 0 # i) = 1 then Some 0 else None)"
      using H by (intro compute_channel_disjoint) (auto simp add: sh valid_index_batch)
    have sub: "set (map nanmean rows) \<subseteq> {None, Some 0}"
      unfolding m using c by auto
    have "nanmean (map nanmean rows) = Some 0 \<or> nanmean (map nanmean rows) = None"
      using nanmean_const[OF sub] by (simp split: if_splits)
    moreover have "rows \<noteq> []" using len N sh by auto
    ultimately show ?thesis by (auto simp add: dice_aggregate_def)
  qed
  show ?thesis using same disj by blast
qed

text \<open>
  Two voxels labelled (0, 1): the prediction (False, True) scores 1 and the prediction
  (True, False) scores 0.
\<close>

theorem dice_extremes_witness:
  "(\<exists>rows. dice_compute (BoolT (row_tensor [1, 1, 1, 2] [False, True])) (row_tensor [1, 1, 1, 2] [0, 1]) = Inr rows
       \<and> dice_aggregate rows = Inr 1)
 \<and> (\<exists>rows. dice_compute (BoolT (row_tensor [1, 1, 1, 2] [True, False])) (row_tensor [1, 1, 1, 2] [0, 1]) = Inr rows
       \<and> dice_aggregate rows = Inr 0)"
proof (intro conjI)
  let ?y = "row_tensor [1, 1, 1, 2] [0, 1::real]"
  have l2: "\<And>l. l < (2::nat) \<longleftrightarrow> l = 0 \<or> l = 1" by auto
  let ?p = "BoolT (row_tensor [1, 1, 1, 2] [False, True])"
  obtain rows where dc: "dice_compute ?p ?y = Inr rows"
    by (simp add: dice_compute_def pred_int_def tmap_def row_tensor_def)
  have a: "\<forall>idx. valid_index (shape ?y) idx \<longrightarrow> (elem (pred_int ?p) idx = 1 \<longleftrightarrow> elem ?y idx = 1)"
    by (auto simp add: row_tensor_def pred_int_def tmap_def valid_index4 l2)
  have "valid_index (shape ?y) [0, 0, 0, 1] \<and> elem ?y [0, 0, 0, 1] = 1"
    by (simp add: row_tensor_def valid_index4)
  then have b: "\<exists>idx. valid_index (shape ?y) idx \<and> elem ?y idx = 1" by blast
  from dice_extremes[OF dc] a b have "dice_aggregate rows = Inr 1" by blast
  with dc show "\<exists>rows. dice_compute ?p ?y = Inr rows \<and> dice_aggregate rows = Inr 1" by blast
next
  let ?y = "row_tensor [1, 1, 1, 2] [0, 1::real]"
  have l2: "\<And>l. l < (2::nat) \<longleftrightarrow> l = 0 \<or> l = 1" by auto
  let ?p = "BoolT (row_tensor [1, 1, 1, 2] [True, False])"
  obtain rows where dc: "dice_compute ?p ?y = Inr rows"
    by (simp add: dice_compute_def pred_int_def tmap_def row_tensor_def)
  have a: "\<forall>idx. valid_index (shape ?y) idx \<longrightarrow> \<not> (elem (pred_int ?p) idx = 1 \<and> elem ?y idx = 1)"
    by (auto simp add: row_tensor_def pred_int_def tmap_def valid_index4 l2)
  have b: "shape ?y ! 0 \<noteq> 0" by (simp add: row_tensor_def)
  from dice_extremes[OF dc] a b have "dice_aggregate rows = Inr 0" by blast
  with dc show "\<exists>rows. dice_compute ?p ?y = Inr rows \<and> dice_aggregate rows = Inr 0" by blast
qed

text \<open>
  Claim C7 as stated, for any pair that is equal: a prediction and a ground truth of two
  voxels that are both 0 everywhere are equal, their score is not a number, and the
  aggregate is 0, not 1.
\<close>

theorem dice_counterexample:
  "(\<forall>idx. real_of_int (elem (pred_int (BoolT \<lparr>shape = [1, 1, 1, 2], elem = (\<lambda>idx. False)\<rparr>)) idx)
            = elem \<lparr>shape = [1, 1, 1, 2], elem = (\<lambda>idx. 0::real)\<rparr> idx)
 \<and> shape (pred_int (BoolT \<lparr>shape = [1, 1, 1, 2], elem = (\<lambda>idx. False)\<rparr>)) = [1, 1, 1, 2]
 \<and> dice_compute (BoolT \<lparr>shape = [1, 1, 1, 2], elem = (\<lambda>idx. False)\<rparr>)
       \<lparr>shape = [1, 1, 1, 2], elem = (\<lambda>idx. 0)\<rparr> = Inr [[None]]
 \<and> dice_aggregate [[None]] = Inr 0
 \<and> dice_aggregate [[None]] \<noteq> Inr 1"
proof -
  have c: "\<And>sh. compute_channel (\<lambda>i. False) (\<lambda>i. False) sh = None"
    by (simp add: compute_channel_def count_where_def)
  have "dice_compute (BoolT \<lparr>shape = [1, 1, 1, 2], elem = (\<lambda>idx. False)\<rparr>)
       \<lparr>shape = [1, 1, 1, 2], elem = (\<lambda>idx. 0)\<rparr> = Inr [[None]]"
    by (simp add: dice_compute_def pred_int_def tmap_def c)
  moreover have "dice_aggregate [[None]] = Inr 0"
    by (simp add: dice_aggregate_def nanmean_def List.map_filter_simps)
  ultimately show ?thesis by (simp add: pred_int_def tmap_def)
qed

end
